theory Spec2Isabelle
  imports Main "HOL-Library.Word"
begin

section \<open>Stacks.c: stack sampling and method-name resolution of the profiler agent\<close>

text \<open>
  The native file keeps its working data in file-level statics and talks to two black
  boxes: the JVMTI environment of the monitored runtime and the JNI environment of the
  calling Java code. The embedding below keeps the statics in records that are passed in
  and returned, takes the JVMTI functions as fields of a record (what the runtime answers
  is an input of the model), and gives every place where the C code would leave defined
  behaviour a value of the type \<open>fault\<close>.

  Conventions:
  \<^item> a JNI entry point \<open>Java_org_netbeans_lib_profiler_server_system_Stacks_f\<close> is
    the function \<open>f\<close>, and a static \<open>_x\<close> is the field \<open>x\<close>;
  \<^item> a pointer has 64 bits, so that a \<open>jmethodID\<close> and a \<open>jlong\<close> carry the same
    bits;
  \<^item> a \<open>char *\<close> argument is represented by the bytes before its terminating NUL, so
    \<open>strlen\<close> is \<open>length\<close>;
  \<^item> C \<open>int\<close> and \<open>jint\<close> values that are never negative are natural numbers, and a
    computation that would exceed \<open>INT_MAX\<close> is the fault \<open>IntOverflow\<close>;
  \<^item> \<open>malloc\<close>, \<open>calloc\<close> and the JNI constructors are taken to succeed, except
    for the two \<open>calloc\<close> calls of the frame buffer, whose outcome is an argument;
  \<^item> the text printed to \<open>stderr\<close> is left out; the memory that the arguments of a
    \<open>fprintf\<close> read is read in the model too.
\<close>

subsection \<open>Faults\<close>

datatype fault =
    IntOverflow
  | OutOfBounds
  | InvalidPointer
  | UninitializedRead
  | NullDereference
  | AssertionFailed

definition bind_fault :: "fault + 'a \<Rightarrow> ('a \<Rightarrow> fault + 'b) \<Rightarrow> fault + 'b" where
  "bind_fault r f = (case r of Inl e \<Rightarrow> Inl e | Inr x \<Rightarrow> f x)"

definition INT_MAX :: nat where
  "INT_MAX = 2147483647"

subsection \<open>Handles and the JVMTI environment\<close>

type_synonym jlong = "64 word"
type_synonym jvmtiError = nat
type_synonym jclass = "64 word"

text \<open>A JNI reference is null or names an object of the virtual machine.\<close>

datatype jobject = Null | Ref nat

type_synonym jthread = jobject

datatype jmethodID = MethodPtr "64 word"

definition JVMTI_ERROR_NONE :: jvmtiError where
  "JVMTI_ERROR_NONE = 0"

definition NULL :: "64 word" where
  "NULL = 0"

definition MAX_FRAMES :: nat where
  "MAX_FRAMES = 16384"

definition PACKEDARR_ITEMS :: nat where
  "PACKEDARR_ITEMS = 4"

record jvmtiFrameInfo =
  "method" :: jmethodID
  location :: jlong

record jvmtiStackInfo =
  thread :: jthread
  state :: int
  frame_buffer :: "jvmtiFrameInfo list"

text \<open>
  \<open>frame_count\<close> of a \<open>jvmtiStackInfo\<close> is the length of its \<open>frame_buffer\<close>, and
  \<open>thread_count\<close> is the length of the list that \<open>GetAllStackTraces\<close> hands back.
  A JVMTI function answers with its error code and the values it stored through its
  out-parameters. \<open>GetMethodDeclaringClass\<close> answers \<open>None\<close> when it stores nothing,
  which leaves the local \<open>declaringClass\<close> without a value, and \<open>IsMethodNative\<close>
  answers \<open>None\<close> when it leaves \<open>native\<close> as it was. \<open>int_at p\<close> is the \<open>int\<close>
  at the address \<open>p\<close>, and \<open>None\<close> when the address cannot be read.
\<close>

record jvmti =
  GetMethodDeclaringClass :: "jmethodID \<Rightarrow> jvmtiError \<times> jclass option"
  int_at :: "64 word \<Rightarrow> 32 word option"
  GetClassSignature :: "jclass \<Rightarrow> jvmtiError \<times> string"
  GetMethodName :: "jmethodID \<Rightarrow> jvmtiError \<times> string \<times> string"
  IsMethodNative :: "jmethodID \<Rightarrow> jvmtiError \<times> bool option"
  GetStackTrace :: "jthread \<Rightarrow> nat \<Rightarrow> int \<Rightarrow> jvmtiError \<times> jvmtiFrameInfo list"
  GetAllStackTraces :: "nat \<Rightarrow> jvmtiError \<times> jvmtiStackInfo list"
  Deallocate :: "jvmtiError"

definition convert_jmethodID_to_jlong :: "jmethodID \<Rightarrow> jlong" where
  "convert_jmethodID_to_jlong jmethod = (case jmethod of MethodPtr p \<Rightarrow> p)"

definition convert_jlong_to_jmethodID :: "jlong \<Rightarrow> jmethodID" where
  "convert_jlong_to_jmethodID v = MethodPtr v"

subsection \<open>The growable byte store\<close>

text \<open>
  The statics \<open>byteData\<close>, \<open>strOffsets\<close>, \<open>byteDataLen\<close>, \<open>dataOfs\<close> and \<open>ofsIdx\<close>.
  \<open>byteData\<close> is an address into a heap of byte blocks, because the store replaces its
  block while it grows; a cell of a block is \<open>None\<close> until it has been written.
  \<open>strOffsets\<close> is allocated once per call and is kept by its contents.
  \<open>calls\<close> records the lookups made on the runtime, in order.
\<close>

datatype jvmti_call =
    Call_GetMethodDeclaringClass jmethodID
  | Call_GetClassSignature jclass
  | Call_GetMethodName jmethodID
  | Call_IsMethodNative jmethodID

type_synonym block = "char option list"

record store =
  heap :: "nat \<Rightarrow> block option"
  brk :: nat
  byteData :: nat
  strOffsets :: "nat option list"
  byteDataLen :: nat
  dataOfs :: nat
  ofsIdx :: nat
  calls :: "jvmti_call list"

definition malloc :: "nat \<Rightarrow> store \<Rightarrow> nat \<times> store" where
  "malloc n st =
     (brk st, st\<lparr>heap := (heap st)(brk st \<mapsto> replicate n None), brk := Suc (brk st)\<rparr>)"

definition free :: "nat \<Rightarrow> store \<Rightarrow> fault + store" where
  "free p st =
     (case heap st p of
        None \<Rightarrow> Inl InvalidPointer
      | Some _ \<Rightarrow> Inr (st\<lparr>heap := (heap st)(p := None)\<rparr>))"

definition memcpy :: "nat \<Rightarrow> nat \<Rightarrow> nat \<Rightarrow> store \<Rightarrow> fault + store" where
  "memcpy dst src n st =
     (case (heap st dst, heap st src) of
        (Some d, Some s) \<Rightarrow>
          if length d < n \<or> length s < n then Inl OutOfBounds
          else Inr (st\<lparr>heap := (heap st)(dst \<mapsto> take n s @ drop n d)\<rparr>)
      | _ \<Rightarrow> Inl InvalidPointer)"

definition strncpy :: "nat \<Rightarrow> nat \<Rightarrow> string \<Rightarrow> nat \<Rightarrow> store \<Rightarrow> fault + store" where
  "strncpy dst ofs s n st =
     (case heap st dst of
        None \<Rightarrow> Inl InvalidPointer
      | Some d \<Rightarrow>
          if length d < ofs + n then Inl OutOfBounds
          else Inr (st\<lparr>heap := (heap st)(dst \<mapsto>
                 take ofs d @ map Some (take n s) @ replicate (n - length s) (Some (CHR 0x00))
                   @ drop (ofs + n) d)\<rparr>))"

definition copy_into_data_array :: "string \<Rightarrow> store \<Rightarrow> fault + store" where
  "copy_into_data_array s st =
     (let len = length s in
      if INT_MAX < len \<or> INT_MAX < dataOfs st + len then Inl IntOverflow
      else
        bind_fault
          (if byteDataLen st < dataOfs st + len then
             (let oldByteData = byteData st in
              if INT_MAX < byteDataLen st * 2 then Inl IntOverflow
              else
                (let newLen = (if byteDataLen st * 2 < dataOfs st + len
                               then dataOfs st + len else byteDataLen st * 2);
                     (p, st1) = malloc newLen st;
                     st2 = st1\<lparr>byteData := p\<rparr>
                 in bind_fault (memcpy (byteData st2) oldByteData (dataOfs st2) st2)
                      (\<lambda>st3. bind_fault (free oldByteData st3)
                         (\<lambda>st4. Inr (st4\<lparr>byteDataLen := newLen\<rparr>)))))
           else Inr st)
          (\<lambda>st5. bind_fault (strncpy (byteData st5) (dataOfs st5) s len st5)
             (\<lambda>st6. if length (strOffsets st6) \<le> ofsIdx st6 then Inl OutOfBounds
                    else Inr (st6\<lparr>strOffsets := (strOffsets st6)[ofsIdx st6 := Some (dataOfs st6)],
                                 ofsIdx := ofsIdx st6 + 1,
                                 dataOfs := dataOfs st6 + len\<rparr>))))"

definition copy_dummy_names_into_data_array :: "store \<Rightarrow> fault + store" where
  "copy_dummy_names_into_data_array st =
     bind_fault (copy_into_data_array ''<unknown class>'' st)
       (\<lambda>st1. bind_fault (copy_into_data_array ''<unknown method>'' st1)
          (\<lambda>st2. bind_fault (copy_into_data_array ''()V'' st2)
             (\<lambda>st3. copy_into_data_array ''0'' st3)))"


subsection \<open>getMethodNamesForJMethodIds\<close>

text \<open>
  \<open>char_at s i\<close> is \<open>s[i]\<close> for a string kept by its contents: the byte at index
  \<open>strlen(s)\<close> is the terminator.
\<close>

definition char_at :: "string \<Rightarrow> nat \<Rightarrow> char" where
  "char_at s i = (if i < length s then s ! i else CHR 0x00)"

definition log_call :: "jvmti_call \<Rightarrow> store \<Rightarrow> store" where
  "log_call c st = st\<lparr>calls := calls st @ [c]\<rparr>"

text \<open>
  \<open>read_int jv p\<close> is \<open>*((int* )p)\<close>, and \<open>read_local x\<close> is the value of a local
  variable, which has none before it is assigned.
\<close>

definition read_int :: "jvmti \<Rightarrow> 64 word \<Rightarrow> fault + 32 word" where
  "read_int jv p =
     (if p = NULL then Inl NullDereference
      else case int_at jv p of None \<Rightarrow> Inl InvalidPointer | Some w \<Rightarrow> Inr w)"

definition read_local :: "'a option \<Rightarrow> fault + 'a" where
  "read_local x = (case x of None \<Rightarrow> Inl UninitializedRead | Some a \<Rightarrow> Inr a)"

text \<open>
  The condition
  \<open>res != JVMTI_ERROR_NONE || declaringClass == NULL || *((int* )declaringClass) == 0\<close>,
  evaluated from left to right, and the warning that follows when it holds: its
  arguments read \<open>*(int* )methodID\<close>, then \<open>declaringClass\<close>, then
  \<open>*((int* )declaringClass)\<close> unless \<open>declaringClass\<close> is \<open>NULL\<close>.
\<close>

definition invalid_declaring_class :: "jvmti \<Rightarrow> jvmtiError \<Rightarrow> jclass option \<Rightarrow> fault + bool" where
  "invalid_declaring_class jv res declaringClass =
     (if res \<noteq> JVMTI_ERROR_NONE then Inr True
      else bind_fault (read_local declaringClass)
             (\<lambda>c. if c = NULL then Inr True
                   else bind_fault (read_int jv c) (\<lambda>w. Inr (w = 0))))"

definition warn_invalid_declaring_class ::
  "jvmti \<Rightarrow> jmethodID \<Rightarrow> jclass option \<Rightarrow> fault + unit" where
  "warn_invalid_declaring_class jv methodID declaringClass =
     bind_fault (read_int jv (convert_jmethodID_to_jlong methodID))
       (\<lambda>w. bind_fault (read_local declaringClass)
          (\<lambda>c. if c \<noteq> NULL then bind_fault (read_int jv c) (\<lambda>w1. Inr ()) else Inr ()))"

text \<open>
  The body of the \<open>for\<close> loop for one entry of \<open>methodIds\<close>. Each \<open>continue\<close> of the
  source ends the body. In the last branch \<open>className[len-1] = 0\<close> followed by
  \<open>className+1\<close> leaves the contents without their first and last byte.
\<close>

definition method_names_body :: "jvmti \<Rightarrow> jlong \<Rightarrow> store \<Rightarrow> fault + store" where
  "method_names_body jv mid st =
     (let methodID = convert_jlong_to_jmethodID mid;
          (res1, stored1) = GetMethodDeclaringClass jv methodID;
          st1 = log_call (Call_GetMethodDeclaringClass methodID) st
      in bind_fault (invalid_declaring_class jv res1 stored1)
           (\<lambda>invalid.
              if invalid
              then bind_fault (warn_invalid_declaring_class jv methodID stored1)
                     (\<lambda>u. copy_dummy_names_into_data_array st1)
              else
                bind_fault (read_local stored1)
                  (\<lambda>declaringClass.
                     let (res2, className) = GetClassSignature jv declaringClass;
                         st2 = log_call (Call_GetClassSignature declaringClass) st1
                     in if res2 \<noteq> JVMTI_ERROR_NONE
                        then copy_dummy_names_into_data_array st2
                        else
                          (let (res3, methodName, methodSig) = GetMethodName jv methodID;
                               st3 = log_call (Call_GetMethodName methodID) st2
                           in if res3 \<noteq> JVMTI_ERROR_NONE
                              then copy_dummy_names_into_data_array st3
                              else
                                (let (res4, stored4) = IsMethodNative jv methodID;
                                     native = (case stored4 of None \<Rightarrow> False | Some b \<Rightarrow> b);
                                     st4 = log_call (Call_IsMethodNative methodID) st3;
                                     len = length className
                                 in bind_fault
                                      (if char_at className 0 = CHR ''L''
                                          \<and> char_at className (len - 1) = CHR '';''
                                       then copy_into_data_array (tl (butlast className)) st4
                                       else copy_into_data_array className st4)
                                      (\<lambda>st5. bind_fault (copy_into_data_array methodName st5)
                                         (\<lambda>st6. bind_fault (copy_into_data_array methodSig st6)
                                            (\<lambda>st7. copy_into_data_array
                                                      (if native then ''1'' else ''0'')
                                                      st7))))))))"

fun method_names_loop :: "jvmti \<Rightarrow> jlong list \<Rightarrow> store \<Rightarrow> fault + store" where
  "method_names_loop jv [] st = Inr st"
| "method_names_loop jv (mid # mids) st =
     bind_fault (method_names_body jv mid st) (method_names_loop jv mids)"

text \<open>
  \<open>read_cells b n\<close> is what a JNI region copy reads from the first \<open>n\<close> cells of a
  native array.
\<close>

definition read_cells :: "'a option list \<Rightarrow> nat \<Rightarrow> fault + 'a list" where
  "read_cells b n =
     (if length b < n then Inl OutOfBounds
      else if None \<in> set (take n b) then Inl UninitializedRead
      else Inr (map the (take n b)))"

text \<open>
  The batch is the list \<open>methodIds\<close> copied out of \<open>jmethodIds\<close>; \<open>nMethods\<close> is its
  length. The result is the content of the byte array \<open>ret\<close>, the
  \<open>nMethods * PACKEDARR_ITEMS\<close> values copied into \<open>packedArrayOffsets\<close>, and the
  lookups made on the runtime.
\<close>

definition getMethodNamesForJMethodIds ::
  "jvmti \<Rightarrow> jlong list \<Rightarrow> fault + (string \<times> nat list \<times> jvmti_call list)" where
  "getMethodNamesForJMethodIds jv methodIds =
     (let nMethods = length methodIds in
      if INT_MAX < nMethods * PACKEDARR_ITEMS * 10 then Inl IntOverflow
      else
        (let st0 = \<lparr>heap = (\<lambda>_. None), brk = 0, byteData = 0,
                    strOffsets = replicate (nMethods * PACKEDARR_ITEMS) None,
                    byteDataLen = nMethods * PACKEDARR_ITEMS * 10,
                    dataOfs = 0, ofsIdx = 0, calls = []\<rparr>;
             (p, st1) = malloc (byteDataLen st0) st0;
             st2 = st1\<lparr>byteData := p\<rparr>
         in bind_fault (method_names_loop jv methodIds st2)
              (\<lambda>st3. case heap st3 (byteData st3) of
                        None \<Rightarrow> Inl InvalidPointer
                      | Some b \<Rightarrow>
                          bind_fault (read_cells b (dataOfs st3))
                            (\<lambda>ret. bind_fault
                                      (read_cells (strOffsets st3) (nMethods * PACKEDARR_ITEMS))
                                      (\<lambda>offs. bind_fault (free (byteData st3) st3)
                                                 (\<lambda>st4. Inr (ret, offs, calls st4)))))))"

subsection \<open>Reading the packed result\<close>

text \<open>
  A field of the packed blob starts at its offset and ends at the next offset, the last
  one at the end of the byte array.
\<close>

definition field_end :: "string \<Rightarrow> nat list \<Rightarrow> nat \<Rightarrow> nat" where
  "field_end ret offs k = (if Suc k < length offs then offs ! Suc k else length ret)"

definition field_length :: "string \<Rightarrow> nat list \<Rightarrow> nat \<Rightarrow> int" where
  "field_length ret offs k = int (field_end ret offs k) - int (offs ! k)"

definition field_at :: "string \<Rightarrow> nat list \<Rightarrow> nat \<Rightarrow> string" where
  "field_at ret offs k = take (field_end ret offs k - offs ! k) (drop (offs ! k) ret)"

definition record_at :: "string \<Rightarrow> nat list \<Rightarrow> nat \<Rightarrow> string list" where
  "record_at ret offs i = map (field_at ret offs) [4 * i ..< 4 * i + 4]"

subsection \<open>What one handle contributes\<close>

definition dummy_names :: "string list" where
  "dummy_names = [''<unknown class>'', ''<unknown method>'', ''()V'', ''0'']"

text \<open>
  What the declaring-class lookup of a handle comes to: whether the condition holds,
  whether it fails to hold, and whether every read of the condition and of the warning
  has a value. \<open>declaring_class_of\<close> is the class that the later lookups use.
\<close>

definition declaring_class_check :: "jvmti \<Rightarrow> jlong \<Rightarrow> fault + bool" where
  "declaring_class_check jv mid =
     (let (res, stored) = GetMethodDeclaringClass jv (convert_jlong_to_jmethodID mid)
      in invalid_declaring_class jv res stored)"

definition declaring_class_fails :: "jvmti \<Rightarrow> jlong \<Rightarrow> bool" where
  "declaring_class_fails jv mid = (declaring_class_check jv mid = Inr True)"

definition declaring_class_found :: "jvmti \<Rightarrow> jlong \<Rightarrow> bool" where
  "declaring_class_found jv mid = (declaring_class_check jv mid = Inr False)"

definition reads_defined :: "jvmti \<Rightarrow> jlong \<Rightarrow> bool" where
  "reads_defined jv mid =
     (case declaring_class_check jv mid of
        Inl e \<Rightarrow> False
      | Inr invalid \<Rightarrow>
          (if invalid
           then warn_invalid_declaring_class jv (convert_jlong_to_jmethodID mid)
                  (snd (GetMethodDeclaringClass jv (convert_jlong_to_jmethodID mid))) = Inr ()
           else True))"

definition declaring_class_of :: "jvmti \<Rightarrow> jlong \<Rightarrow> jclass" where
  "declaring_class_of jv mid =
     (case snd (GetMethodDeclaringClass jv (convert_jlong_to_jmethodID mid)) of
        None \<Rightarrow> NULL
      | Some c \<Rightarrow> c)"

text \<open>
  The conditions under which the later lookups make the loop body take a \<open>continue\<close>,
  and the condition under which the last lookup reports an error.
\<close>

definition class_signature_fails :: "jvmti \<Rightarrow> jlong \<Rightarrow> bool" where
  "class_signature_fails jv mid =
     (declaring_class_found jv mid \<and>
      fst (GetClassSignature jv (declaring_class_of jv mid)) \<noteq> JVMTI_ERROR_NONE)"

definition method_name_fails :: "jvmti \<Rightarrow> jlong \<Rightarrow> bool" where
  "method_name_fails jv mid =
     (declaring_class_found jv mid \<and> \<not> class_signature_fails jv mid \<and>
      fst (GetMethodName jv (convert_jlong_to_jmethodID mid)) \<noteq> JVMTI_ERROR_NONE)"

definition native_flag_fails :: "jvmti \<Rightarrow> jlong \<Rightarrow> bool" where
  "native_flag_fails jv mid =
     (declaring_class_found jv mid \<and> \<not> class_signature_fails jv mid \<and>
      \<not> method_name_fails jv mid \<and>
      fst (IsMethodNative jv (convert_jlong_to_jmethodID mid)) \<noteq> JVMTI_ERROR_NONE)"

text \<open>
  The four strings that the loop body appends for a handle, and the lookups it makes.
\<close>

definition class_signature_of :: "jvmti \<Rightarrow> jlong \<Rightarrow> string" where
  "class_signature_of jv mid = snd (GetClassSignature jv (declaring_class_of jv mid))"

definition strip_class_signature :: "string \<Rightarrow> string" where
  "strip_class_signature className =
     (if char_at className 0 = CHR ''L''
         \<and> char_at className (length className - 1) = CHR '';''
      then tl (butlast className) else className)"

definition native_flag :: "jvmti \<Rightarrow> jlong \<Rightarrow> string" where
  "native_flag jv mid =
     (if snd (IsMethodNative jv (convert_jlong_to_jmethodID mid)) = Some True
      then ''1'' else ''0'')"

definition method_fields :: "jvmti \<Rightarrow> jlong \<Rightarrow> string list" where
  "method_fields jv mid =
     (if declaring_class_fails jv mid \<or> class_signature_fails jv mid \<or> method_name_fails jv mid
      then dummy_names
      else
        (let (methodName, methodSig) = snd (GetMethodName jv (convert_jlong_to_jmethodID mid))
         in [strip_class_signature (class_signature_of jv mid), methodName, methodSig,
             native_flag jv mid]))"

definition method_lookups :: "jvmti \<Rightarrow> jlong \<Rightarrow> jvmti_call list" where
  "method_lookups jv mid =
     (let m = convert_jlong_to_jmethodID mid;
          c = declaring_class_of jv mid
      in if declaring_class_fails jv mid then [Call_GetMethodDeclaringClass m]
         else if class_signature_fails jv mid
         then [Call_GetMethodDeclaringClass m, Call_GetClassSignature c]
         else if method_name_fails jv mid
         then [Call_GetMethodDeclaringClass m, Call_GetClassSignature c, Call_GetMethodName m]
         else [Call_GetMethodDeclaringClass m, Call_GetClassSignature c, Call_GetMethodName m,
               Call_IsMethodNative m])"

subsection \<open>Sequences of appends\<close>

fun copy_all :: "string list \<Rightarrow> store \<Rightarrow> fault + store" where
  "copy_all [] st = Inr st"
| "copy_all (s # ss) st = bind_fault (copy_into_data_array s st) (copy_all ss)"

text \<open>
  \<open>store_ok\<close>: \<open>byteData\<close> points to a live block of \<open>byteDataLen\<close> cells that was
  handed out by \<open>malloc\<close>, and \<open>dataOfs\<close> lies inside it. \<open>written\<close> is the used part
  of the block.
\<close>

definition store_ok :: "store \<Rightarrow> bool" where
  "store_ok st =
     ((case heap st (byteData st) of None \<Rightarrow> False | Some b \<Rightarrow> length b = byteDataLen st)
      \<and> dataOfs st \<le> byteDataLen st \<and> byteData st < brk st)"

definition written :: "store \<Rightarrow> block" where
  "written st = (case heap st (byteData st) of None \<Rightarrow> [] | Some b \<Rightarrow> take (dataOfs st) b)"

primrec offsets_from :: "nat \<Rightarrow> string list \<Rightarrow> nat list" where
  "offsets_from d [] = []"
| "offsets_from d (s # ss) = d # offsets_from (d + length s) ss"

text \<open>
  \<open>batch_defined\<close>: for every handle of the batch, the reads of the declaring-class
  condition and of its warning have a value.
\<close>

definition batch_defined :: "jvmti \<Rightarrow> jlong list \<Rightarrow> bool" where
  "batch_defined jv mids = list_all (reads_defined jv) mids"

text \<open>
  \<open>batch_fits\<close>: the sizes of a batch stay inside the range of \<open>int\<close>. The initial
  capacity \<open>nMethods * PACKEDARR_ITEMS * 10\<close> is an \<open>int\<close>, and a doubling of the
  capacity stays below \<open>2 ^ 31\<close> when all the bytes appended number at most \<open>2 ^ 30\<close>.
\<close>

definition batch_fits :: "jvmti \<Rightarrow> jlong list \<Rightarrow> bool" where
  "batch_fits jv mids =
     (length mids * PACKEDARR_ITEMS * 10 \<le> INT_MAX
      \<and> length (concat (concat (map (method_fields jv) mids))) \<le> 2 ^ 30)"

subsection \<open>The virtual machine seen through JNI\<close>

text \<open>
  The Java arrays live in the virtual machine and are reached through references, so
  that an array stored into a holder and filled afterwards is the same array. The
  journal records, in order, every call that writes into an array and the release of a
  snapshot by \<open>Deallocate\<close>. An index or a region outside an array raises a Java
  exception, which leaves the array as it is; the native code goes on.
\<close>

datatype jarray =
    ObjectArray "jobject list"
  | IntArray "int list"
  | LongArray "jlong list"

datatype vm_event = Written nat | Deallocated

record vm =
  arrays :: "nat \<Rightarrow> jarray option"
  next_ref :: nat
  journal :: "vm_event list"

record jni =
  FindClass :: "string \<Rightarrow> jobject"

definition NewGlobalRef :: "jobject \<Rightarrow> jobject" where
  "NewGlobalRef obj = obj"

definition new_array :: "jarray \<Rightarrow> vm \<Rightarrow> jobject \<times> vm" where
  "new_array a v =
     (Ref (next_ref v),
      v\<lparr>arrays := (arrays v)(next_ref v \<mapsto> a), next_ref := Suc (next_ref v)\<rparr>)"

definition NewObjectArray :: "nat \<Rightarrow> jobject \<Rightarrow> jobject \<Rightarrow> vm \<Rightarrow> jobject \<times> vm" where
  "NewObjectArray n elementClass initialElement v =
     new_array (ObjectArray (replicate n initialElement)) v"

definition NewIntArray :: "nat \<Rightarrow> vm \<Rightarrow> jobject \<times> vm" where
  "NewIntArray n v = new_array (IntArray (replicate n 0)) v"

definition NewLongArray :: "nat \<Rightarrow> vm \<Rightarrow> jobject \<times> vm" where
  "NewLongArray n v = new_array (LongArray (replicate n 0)) v"

definition write_array :: "nat \<Rightarrow> jarray \<Rightarrow> vm \<Rightarrow> vm" where
  "write_array r a v = v\<lparr>arrays := (arrays v)(r \<mapsto> a), journal := journal v @ [Written r]\<rparr>"

definition SetObjectArrayElement :: "jobject \<Rightarrow> nat \<Rightarrow> jobject \<Rightarrow> vm \<Rightarrow> fault + vm" where
  "SetObjectArrayElement array i val v =
     (case array of
        Null \<Rightarrow> Inl NullDereference
      | Ref r \<Rightarrow>
          (case arrays v r of
             Some (ObjectArray xs) \<Rightarrow>
               if i < length xs then Inr (write_array r (ObjectArray (xs[i := val])) v)
               else Inr v
           | _ \<Rightarrow> Inl InvalidPointer))"

definition SetIntArrayRegion :: "jobject \<Rightarrow> nat \<Rightarrow> nat \<Rightarrow> int list \<Rightarrow> vm \<Rightarrow> fault + vm" where
  "SetIntArrayRegion array start len buf v =
     (case array of
        Null \<Rightarrow> Inl NullDereference
      | Ref r \<Rightarrow>
          (case arrays v r of
             Some (IntArray xs) \<Rightarrow>
               if length xs < start + len then Inr v
               else if length buf < len then Inl OutOfBounds
               else Inr (write_array r
                           (IntArray (take start xs @ take len buf @ drop (start + len) xs)) v)
           | _ \<Rightarrow> Inl InvalidPointer))"

definition SetLongArrayRegion :: "jobject \<Rightarrow> nat \<Rightarrow> nat \<Rightarrow> jlong list \<Rightarrow> vm \<Rightarrow> fault + vm" where
  "SetLongArrayRegion array start len buf v =
     (case array of
        Null \<Rightarrow> Inl NullDereference
      | Ref r \<Rightarrow>
          (case arrays v r of
             Some (LongArray xs) \<Rightarrow>
               if length xs < start + len then Inr v
               else if length buf < len then Inl OutOfBounds
               else Inr (write_array r
                           (LongArray (take start xs @ take len buf @ drop (start + len) xs)) v)
           | _ \<Rightarrow> Inl InvalidPointer))"

subsection \<open>The frame buffers\<close>

text \<open>
  The statics \<open>_stack_frames_buffer\<close>, \<open>_stack_id_buffer\<close>, \<open>threadType\<close> and
  \<open>longArrType\<close>. A buffer pointer is \<open>None\<close> when it is \<open>NULL\<close> and holds the
  contents of its block otherwise. \<open>calloc\<close> gives a zeroed block, or \<open>NULL\<close> when the
  allocator finds no memory or the count is negative.
\<close>

record statics =
  stack_frames_buffer :: "jvmtiFrameInfo list option"
  stack_id_buffer :: "jlong list option"
  threadType :: jobject
  longArrType :: jobject

definition initial_statics :: statics where
  "initial_statics =
     \<lparr>stack_frames_buffer = None, stack_id_buffer = None, threadType = Null, longArrType = Null\<rparr>"

definition calloc :: "bool \<Rightarrow> int \<Rightarrow> 'a \<Rightarrow> 'a list option" where
  "calloc found n zero = (if found \<and> 0 \<le> n then Some (replicate (nat n) zero) else None)"

definition zero_frame :: jvmtiFrameInfo where
  "zero_frame = \<lparr>method = MethodPtr 0, location = 0\<rparr>"

definition clearNativeStackFrameBuffer :: "statics \<Rightarrow> statics" where
  "clearNativeStackFrameBuffer s = s\<lparr>stack_frames_buffer := None, stack_id_buffer := None\<rparr>"

definition createNativeStackFrameBuffer :: "bool \<Rightarrow> bool \<Rightarrow> int \<Rightarrow> statics \<Rightarrow> statics" where
  "createNativeStackFrameBuffer found1 found2 sizeInFrames s =
     (let s1 = (if stack_frames_buffer s \<noteq> None then clearNativeStackFrameBuffer s else s)
      in s1\<lparr>stack_frames_buffer := calloc found1 sizeInFrames zero_frame,
            stack_id_buffer := calloc found2 sizeInFrames 0\<rparr>)"

text \<open>
  The loop \<open>for (i = 0; i < count; i++) ids[i] = convert_jmethodID_to_jlong(frames[i].method)\<close>,
  which both sampling functions run.
\<close>

function convert_frames ::
  "nat \<Rightarrow> nat \<Rightarrow> jvmtiFrameInfo list \<Rightarrow> jlong list \<Rightarrow> fault + jlong list" where
  "convert_frames i count frames ids =
     (if i < count then
        (if length frames \<le> i \<or> length ids \<le> i then Inl OutOfBounds
         else convert_frames (Suc i) count frames
                (ids[i := convert_jmethodID_to_jlong (method (frames ! i))]))
      else Inr ids)"
  by pat_completeness auto
termination
  by (relation "measure (\<lambda>(i, count, frames, ids). count - i)") auto

text \<open>
  \<open>GetStackTrace\<close> answers with the frames it stored at the start of
  \<open>_stack_frames_buffer\<close>; their number is \<open>count\<close>. When it reports an error it
  stores nothing, and \<open>count\<close> has no value.
\<close>

definition getCurrentStackFrameIds ::
  "jvmti \<Rightarrow> jthread \<Rightarrow> int \<Rightarrow> jobject \<Rightarrow> statics \<times> vm \<Rightarrow> fault + (statics \<times> vm \<times> nat)" where
  "getCurrentStackFrameIds jv jni_thread depth ret sv =
     (let (s, v) = sv in
      case stack_frames_buffer s of
        None \<Rightarrow> Inr (s, v, 0)
      | Some frames \<Rightarrow>
          (let (res, stored) = GetStackTrace jv jni_thread 0 depth in
           if res \<noteq> JVMTI_ERROR_NONE then Inl UninitializedRead
           else if length frames < length stored then Inl OutOfBounds
           else
             (let count = length stored;
                  frames1 = stored @ drop count frames
              in bind_fault
                   (case stack_id_buffer s of
                      None \<Rightarrow> if 0 < count then Inl NullDereference else Inr None
                    | Some ids \<Rightarrow>
                        bind_fault (convert_frames 0 count frames1 ids) (\<lambda>ids1. Inr (Some ids1)))
                   (\<lambda>id_buffer.
                      bind_fault
                        (SetLongArrayRegion ret 0 count
                           (case id_buffer of None \<Rightarrow> [] | Some ids1 \<Rightarrow> ids1) v)
                        (\<lambda>v1. Inr (s\<lparr>stack_frames_buffer := Some frames1,
                                      stack_id_buffer := id_buffer\<rparr>, v1, count))))))"

text \<open>Sequences of calls that create and clear the frame buffers.\<close>

datatype buffer_call = Create bool bool int | Clear

fun run_call :: "buffer_call \<Rightarrow> statics \<Rightarrow> statics" where
  "run_call (Create found1 found2 sizeInFrames) s =
     createNativeStackFrameBuffer found1 found2 sizeInFrames s"
| "run_call Clear s = clearNativeStackFrameBuffer s"

fun run_calls :: "buffer_call list \<Rightarrow> statics \<Rightarrow> statics" where
  "run_calls [] s = s"
| "run_calls (c # cs) s = run_calls cs (run_call c s)"

fun allocation_succeeds :: "buffer_call \<Rightarrow> bool" where
  "allocation_succeeds (Create found1 found2 sizeInFrames) =
     (found1 \<and> found2 \<and> 0 \<le> sizeInFrames)"
| "allocation_succeeds Clear = True"

text \<open>\<open>allocated n s\<close>: both buffers are there, with \<open>n\<close> entries each.\<close>

definition allocated :: "nat \<Rightarrow> statics \<Rightarrow> bool" where
  "allocated n s =
     (case (stack_frames_buffer s, stack_id_buffer s) of
        (Some frames, Some ids) \<Rightarrow> length frames = n \<and> length ids = n
      | _ \<Rightarrow> False)"

subsection \<open>getAllStackTraces\<close>

text \<open>
  The loop over \<open>stack_info[ti]\<close>. \<open>id_buffer\<close> is a zeroed block of \<open>frame_count\<close>
  entries. \<open>convert_JVMTI_thread_status_to_jfluid_status\<close> is defined outside this
  file and is an argument, \<open>cv\<close>.
\<close>

fun all_stack_traces_loop ::
  "(int \<Rightarrow> int) \<Rightarrow> jobject \<Rightarrow> jobject \<Rightarrow> nat \<Rightarrow> jvmtiStackInfo list \<Rightarrow> int list \<Rightarrow> vm
     \<Rightarrow> fault + (int list \<times> vm)" where
  "all_stack_traces_loop cv jthreadArr methodIdArrArr ti [] state_buffer v = Inr (state_buffer, v)"
| "all_stack_traces_loop cv jthreadArr methodIdArrArr ti (infop # rest) state_buffer v =
     bind_fault (SetObjectArrayElement jthreadArr ti (thread infop) v)
       (\<lambda>v1. if length state_buffer \<le> ti then Inl OutOfBounds
              else
                (let state_buffer1 = state_buffer[ti := cv (state infop)];
                     frame_count = length (frame_buffer infop);
                     (jmethodIdArr, v2) = NewLongArray frame_count v1
                 in bind_fault (SetObjectArrayElement methodIdArrArr ti jmethodIdArr v2)
                      (\<lambda>v3. bind_fault
                                (convert_frames 0 frame_count (frame_buffer infop)
                                   (replicate frame_count 0))
                                (\<lambda>id_buffer.
                                   bind_fault
                                     (SetLongArrayRegion jmethodIdArr 0 frame_count id_buffer v3)
                                     (\<lambda>v4. all_stack_traces_loop cv jthreadArr methodIdArrArr
                                              (Suc ti) rest state_buffer1 v4)))))"

text \<open>
  \<open>threads\<close>, \<open>states\<close> and \<open>frames\<close> are the caller's holders: arrays whose element
  0 receives the result arrays. The \<open>assert\<close> after \<open>Deallocate\<close> is taken to be
  compiled in.
\<close>

definition getAllStackTraces ::
  "jvmti \<Rightarrow> jni \<Rightarrow> (int \<Rightarrow> int) \<Rightarrow> jobject \<Rightarrow> jobject \<Rightarrow> jobject \<Rightarrow> statics \<times> vm
     \<Rightarrow> fault + (statics \<times> vm)" where
  "getAllStackTraces jv env cv threads states frames sv =
     (let (s, v) = sv;
          (err, stack_info) = GetAllStackTraces jv MAX_FRAMES;
          thread_count = length stack_info
      in if err \<noteq> JVMTI_ERROR_NONE then Inr (s, v)
         else
           (let s1 = (if threadType s = Null
                      then s\<lparr>threadType := NewGlobalRef (FindClass env ''java/lang/Thread'')\<rparr>
                      else s);
                s2 = (if longArrType s1 = Null
                      then s1\<lparr>longArrType := NewGlobalRef (FindClass env ''[J'')\<rparr>
                      else s1);
                (jthreadArr, v1) = NewObjectArray thread_count (threadType s2) Null v
            in bind_fault (SetObjectArrayElement threads 0 jthreadArr v1)
                 (\<lambda>v2. let (statesArr, v3) = NewIntArray thread_count v2
                        in bind_fault (SetObjectArrayElement states 0 statesArr v3)
                             (\<lambda>v4. let (methodIdArrArr, v5) =
                                          NewObjectArray thread_count (longArrType s2) Null v4
                                    in bind_fault (SetObjectArrayElement frames 0 methodIdArrArr v5)
                                         (\<lambda>v6. bind_fault
                                                   (all_stack_traces_loop cv jthreadArr
                                                      methodIdArrArr 0 stack_info
                                                      (replicate thread_count 0) v6)
                                                   (\<lambda>(state_buffer, v7).
                                                      bind_fault
                                                        (SetIntArrayRegion statesArr 0 thread_count
                                                           state_buffer v7)
                                                        (\<lambda>v8.
                                                           let v9 = v8\<lparr>journal :=
                                                                      journal v8 @ [Deallocated]\<rparr>
                                                           in if Deallocate jv \<noteq> JVMTI_ERROR_NONE
                                                              then Inl AssertionFailed
                                                              else Inr (s2, v9))))))))"

text \<open>
  What the caller finds afterwards: the array that element 0 of a holder refers to, the
  lengths of the three result arrays, and the entry of the three at one index.
\<close>

definition holder_array :: "vm \<Rightarrow> jobject \<Rightarrow> jarray option" where
  "holder_array v h =
     (case h of
        Null \<Rightarrow> None
      | Ref r \<Rightarrow>
          (case arrays v r of
             Some (ObjectArray (Ref a # _)) \<Rightarrow> arrays v a
           | _ \<Rightarrow> None))"

definition snapshot_lengths :: "vm \<Rightarrow> jobject \<Rightarrow> jobject \<Rightarrow> jobject \<Rightarrow> (nat \<times> nat \<times> nat) option" where
  "snapshot_lengths v threads states frames =
     (case (holder_array v threads, holder_array v states, holder_array v frames) of
        (Some (ObjectArray ts), Some (IntArray ss), Some (ObjectArray fs)) \<Rightarrow>
          Some (length ts, length ss, length fs)
      | _ \<Rightarrow> None)"

definition snapshot_entry ::
  "vm \<Rightarrow> jobject \<Rightarrow> jobject \<Rightarrow> jobject \<Rightarrow> nat \<Rightarrow> (jobject \<times> int \<times> jlong list) option" where
  "snapshot_entry v threads states frames i =
     (case (holder_array v threads, holder_array v states, holder_array v frames) of
        (Some (ObjectArray ts), Some (IntArray ss), Some (ObjectArray fs)) \<Rightarrow>
          if i < length ts \<and> i < length ss \<and> i < length fs
          then (case fs ! i of
                  Null \<Rightarrow> None
                | Ref a \<Rightarrow>
                    (case arrays v a of
                       Some (LongArray ids) \<Rightarrow> Some (ts ! i, ss ! i, ids)
                     | _ \<Rightarrow> None))
          else None
      | _ \<Rightarrow> None)"

text \<open>
  \<open>is_holder v h\<close>: \<open>h\<close> refers to an object array of the virtual machine with an
  element 0. \<open>holders_ok\<close>: the three holders are such arrays and differ from one
  another.
\<close>

definition is_holder :: "vm \<Rightarrow> jobject \<Rightarrow> bool" where
  "is_holder v h =
     (case h of
        Null \<Rightarrow> False
      | Ref r \<Rightarrow>
          r < next_ref v \<and>
          (case arrays v r of Some (ObjectArray xs) \<Rightarrow> xs \<noteq> [] | _ \<Rightarrow> False))"

definition holders_ok :: "vm \<Rightarrow> jobject \<Rightarrow> jobject \<Rightarrow> jobject \<Rightarrow> bool" where
  "holders_ok v threads states frames =
     (is_holder v threads \<and> is_holder v states \<and> is_holder v frames
      \<and> threads \<noteq> states \<and> threads \<noteq> frames \<and> states \<noteq> frames)"

definition frame_ids :: "jvmtiStackInfo \<Rightarrow> jlong list" where
  "frame_ids infop = map (\<lambda>f. convert_jmethodID_to_jlong (method f)) (frame_buffer infop)"

text \<open>
  \<open>extends_by_writes v v'\<close>: from \<open>v\<close> to \<open>v'\<close> the journal has grown by array
  writes only.
\<close>

definition extends_by_writes :: "vm \<Rightarrow> vm \<Rightarrow> bool" where
  "extends_by_writes v v' = (\<exists>ws. journal v' = journal v @ ws \<and> Deallocated \<notin> set ws)"

subsection \<open>Sample inputs\<close>

text \<open>A store of capacity 2 with room for three offsets, before its first append.\<close>

definition st_small :: store where
  "st_small =
     \<lparr>heap = (\<lambda>a. if a = 0 then Some [None, None] else None), brk = 1, byteData = 0,
      strOffsets = [None, None, None], byteDataLen = 2, dataOfs = 0, ofsIdx = 0, calls = []\<rparr>"

text \<open>
  A runtime that resolves the methods 1 to 5. Methods 1, 2 and 3 are declared by the
  class \<open>Lcom/example/Foo;\<close>; the runtime cannot tell whether method 2 is native, and
  method 3 is native. Methods 4 and 5 are declared by classes whose signatures are \<open>I\<close>
  and \<open>[I\<close>. The declaring class of method 6 has no signature, and method 7 has no
  name. For handle 9 the runtime answers without error with a null class, and for
  handle 11 it reports the error 23 and stores a null class. For any other handle the
  declaring-class lookup reports the error 23 and stores nothing. The handles 1 to 7
  and 9 to 11 and the four classes are addresses that can be read; no other address
  can, so that handle 8 is neither known to the runtime nor readable. Thread 1
  is in the methods 1, 2 and 3, innermost first, and thread 2 is in method 3; no other
  thread is alive.
\<close>

definition frame_at :: "64 word \<Rightarrow> jvmtiFrameInfo" where
  "frame_at p = \<lparr>method = MethodPtr p, location = 0\<rparr>"

definition sample_stack :: "jvmtiFrameInfo list" where
  "sample_stack = [frame_at 1, frame_at 2, frame_at 3]"

definition jv_sample :: jvmti where
  "jv_sample =
     \<lparr>GetMethodDeclaringClass =
        (\<lambda>m. if m = MethodPtr 1 \<or> m = MethodPtr 2 \<or> m = MethodPtr 3 \<or> m = MethodPtr 7
              then (0, Some 100)
              else if m = MethodPtr 4 then (0, Some 104)
              else if m = MethodPtr 5 then (0, Some 105)
              else if m = MethodPtr 6 then (0, Some 106)
              else if m = MethodPtr 9 then (0, Some NULL)
              else if m = MethodPtr 11 then (23, Some NULL)
              else (23, None)),
      int_at =
        (\<lambda>p. if p \<in> {1, 2, 3, 4, 5, 6, 7, 9, 10, 11, 100, 104, 105, 106} then Some 7
              else None),
      GetClassSignature =
        (\<lambda>c. if c = 100 then (0, ''Lcom/example/Foo;'')
              else if c = 104 then (0, ''I'')
              else if c = 105 then (0, ''[I'')
              else (21, [])),
      GetMethodName = (\<lambda>m. if m = MethodPtr 7 then (23, [], []) else (0, ''run'', ''()V'')),
      IsMethodNative =
        (\<lambda>m. if m = MethodPtr 2 then (113, None)
              else if m = MethodPtr 3 then (0, Some True)
              else (0, Some False)),
      GetStackTrace =
        (\<lambda>t start d. if t = Ref 1 \<and> 0 \<le> d then (0, take (nat d) (drop start sample_stack))
                      else (15, [])),
      GetAllStackTraces =
        (\<lambda>n. (0, [\<lparr>thread = Ref 1, state = 5, frame_buffer = take n sample_stack\<rparr>,
                   \<lparr>thread = Ref 2, state = 1025, frame_buffer = take n [frame_at 3]\<rparr>])),
      Deallocate = 0\<rparr>"

definition sample_batch :: "jlong list" where
  "sample_batch = [1, 6, 2, 4, 5, 9, 11]"

text \<open>
  A virtual machine with one array of three longs, reference 0, which a caller of
  \<open>getCurrentStackFrameIds\<close> passes as \<open>ret\<close>.
\<close>

definition vm_sample :: vm where
  "vm_sample =
     \<lparr>arrays = (\<lambda>r. if r = 0 then Some (LongArray [9, 9, 9]) else None),
      next_ref = 1, journal = []\<rparr>"

text \<open>
  A virtual machine with three holders of one element each, references 0, 1 and 2; a JNI
  environment that finds every class at reference 9; a translation of thread states.
\<close>

definition vm_holders :: vm where
  "vm_holders =
     \<lparr>arrays = (\<lambda>r. if r < 3 then Some (ObjectArray [Null]) else None),
      next_ref = 3, journal = []\<rparr>"

definition env_sample :: jni where
  "env_sample = \<lparr>FindClass = (\<lambda>name. Ref 9)\<rparr>"

definition status_sample :: "int \<Rightarrow> int" where
  "status_sample st = st mod 7"

text \<open>The sample runtime when it is in a phase that does not allow stack traces.\<close>

definition jv_wrong_phase :: jvmti where
  "jv_wrong_phase = jv_sample\<lparr>GetAllStackTraces := (\<lambda>n. (112, []))\<rparr>"

section \<open>Properties of the byte store\<close>

lemma store_ok_calls [simp]: "store_ok (st\<lparr>calls := c\<rparr>) = store_ok st"
  by (simp add: store_ok_def split: option.splits)

lemma written_calls [simp]: "written (st\<lparr>calls := c\<rparr>) = written st"
  by (simp add: written_def split: option.splits)
lemma copy_step:
  assumes ok: "store_ok st"
    and bound: "dataOfs st + length s \<le> 2 ^ 30"
    and room: "ofsIdx st < length (strOffsets st)"
  shows "\<exists>st'. copy_into_data_array s st = Inr st'
           \<and> store_ok st'
           \<and> dataOfs st' = dataOfs st + length s
           \<and> ofsIdx st' = Suc (ofsIdx st)
           \<and> strOffsets st' = (strOffsets st)[ofsIdx st := Some (dataOfs st)]
           \<and> written st' = written st @ map Some s
           \<and> calls st' = calls st
           \<and> byteDataLen st' =
               (if byteDataLen st < dataOfs st + length s
                then max (byteDataLen st * 2) (dataOfs st + length s) else byteDataLen st)
           \<and> (if byteDataLen st < dataOfs st + length s
               then heap st' (byteData st) = None \<and> byteData st' = brk st
               else byteData st' = byteData st)"
proof -
  from ok obtain b where b: "heap st (byteData st) = Some b" "length b = byteDataLen st"
    and le: "dataOfs st \<le> byteDataLen st" and lt: "byteData st < brk st"
    by (auto simp: store_ok_def split: option.splits)
  show ?thesis
  proof (cases "byteDataLen st < dataOfs st + length s")
    case True
    with bound have "byteDataLen st * 2 \<le> INT_MAX" by (simp add: INT_MAX_def)
    with True b le lt bound room show ?thesis
      by (auto simp: copy_into_data_array_def Let_def bind_fault_def malloc_def memcpy_def free_def
          strncpy_def store_ok_def written_def INT_MAX_def max_def)
  next
    case False
    with b le lt bound room show ?thesis
      by (auto simp: copy_into_data_array_def Let_def bind_fault_def 
          strncpy_def store_ok_def written_def INT_MAX_def)
  qed
qed

lemma copy_all_ok:
  assumes "store_ok st"
    and "dataOfs st + length (concat ss) \<le> 2 ^ 30"
    and "ofsIdx st + length ss \<le> length (strOffsets st)"
  shows "\<exists>st'. copy_all ss st = Inr st'
           \<and> store_ok st'
           \<and> dataOfs st' = dataOfs st + length (concat ss)
           \<and> ofsIdx st' = ofsIdx st + length ss
           \<and> strOffsets st' =
                take (ofsIdx st) (strOffsets st) @ map Some (offsets_from (dataOfs st) ss)
                  @ drop (ofsIdx st + length ss) (strOffsets st)
           \<and> written st' = written st @ map Some (concat ss)
           \<and> calls st' = calls st"
  using assms
proof (induction ss arbitrary: st)
  case Nil
  then show ?case by simp
next
  case (Cons s ss)
  from Cons.prems have b1: "dataOfs st + length s \<le> 2 ^ 30"
    and r1: "ofsIdx st < length (strOffsets st)" by simp_all
  from copy_step [OF Cons.prems(1) b1 r1] obtain st1 where
    st1: "copy_into_data_array s st = Inr st1" "store_ok st1"
      "dataOfs st1 = dataOfs st + length s" "ofsIdx st1 = Suc (ofsIdx st)"
      "strOffsets st1 = (strOffsets st)[ofsIdx st := Some (dataOfs st)]"
      "written st1 = written st @ map Some s" "calls st1 = calls st"
    by blast
  have b2: "dataOfs st1 + length (concat ss) \<le> 2 ^ 30"
    using Cons.prems(2) st1(3) by simp
  have r2: "ofsIdx st1 + length ss \<le> length (strOffsets st1)"
    using Cons.prems(3) st1(4,5) by simp
  from Cons.IH [OF st1(2) b2 r2] obtain st2 where
    st2: "copy_all ss st1 = Inr st2" "store_ok st2"
      "dataOfs st2 = dataOfs st1 + length (concat ss)" "ofsIdx st2 = ofsIdx st1 + length ss"
      "strOffsets st2 =
         take (ofsIdx st1) (strOffsets st1) @ map Some (offsets_from (dataOfs st1) ss)
           @ drop (ofsIdx st1 + length ss) (strOffsets st1)"
      "written st2 = written st1 @ map Some (concat ss)" "calls st2 = calls st1"
    by blast
  have offs: "strOffsets st2 =
      take (ofsIdx st) (strOffsets st) @ map Some (offsets_from (dataOfs st) (s # ss))
        @ drop (ofsIdx st + length (s # ss)) (strOffsets st)"
    using st2(5) st1(3,4,5) r1
    by (simp add: take_Suc_conv_app_nth)
  show ?case
    using st1 st2 offs by (simp add: bind_fault_def)
qed


lemma dummy_eq: "copy_dummy_names_into_data_array st = copy_all dummy_names st"
  by (simp add: copy_dummy_names_into_data_array_def dummy_names_def bind_fault_def
      split: sum.splits)

lemma length_method_fields: "length (method_fields jv mid) = 4"
  by (simp add: method_fields_def dummy_names_def Let_def split: prod.splits)

lemma reads_definedD:
  assumes "reads_defined jv mid"
    and "GetMethodDeclaringClass jv (convert_jlong_to_jmethodID mid) = (r1, stored)"
  shows "(invalid_declaring_class jv r1 stored = Inr True
            \<and> warn_invalid_declaring_class jv (convert_jlong_to_jmethodID mid) stored = Inr ()
            \<and> declaring_class_fails jv mid)
         \<or> (invalid_declaring_class jv r1 stored = Inr False
            \<and> stored = Some (declaring_class_of jv mid)
            \<and> declaring_class_found jv mid \<and> \<not> declaring_class_fails jv mid)"
proof (cases "invalid_declaring_class jv r1 stored")
  case (Inl e)
  with assms show ?thesis by (simp add: reads_defined_def declaring_class_check_def)
next
  case (Inr invalid)
  show ?thesis
  proof (cases invalid)
    case True
    with Inr assms show ?thesis
      by (simp add: reads_defined_def declaring_class_check_def declaring_class_fails_def)
  next
    case False
    with Inr have "stored \<noteq> None"
      by (cases stored)
        (auto simp: invalid_declaring_class_def read_local_def bind_fault_def split: if_splits)
    with False Inr assms(2) show ?thesis
      by (auto simp: declaring_class_check_def declaring_class_fails_def
          declaring_class_found_def declaring_class_of_def)
  qed
qed

lemma body_eq:
  assumes "reads_defined jv mid"
  shows "method_names_body jv mid st =
     copy_all (method_fields jv mid) (st\<lparr>calls := calls st @ method_lookups jv mid\<rparr>)"
proof -
  let ?m = "convert_jlong_to_jmethodID mid"
  let ?c = "declaring_class_of jv mid"
  obtain r1 stored where g1: "GetMethodDeclaringClass jv ?m = (r1, stored)"
    by (cases "GetMethodDeclaringClass jv ?m")
  obtain r2 cn where g2: "GetClassSignature jv ?c = (r2, cn)"
    by (cases "GetClassSignature jv ?c")
  obtain r3 mn ms where g3: "GetMethodName jv ?m = (r3, mn, ms)"
    by (cases "GetMethodName jv ?m")
  obtain r4 w where g4: "IsMethodNative jv ?m = (r4, w)"
    by (cases "IsMethodNative jv ?m")
  note defs = method_names_body_def method_fields_def method_lookups_def
    class_signature_fails_def method_name_fails_def
    class_signature_of_def strip_class_signature_def native_flag_def
    log_call_def Let_def g1 g2 g3 g4 dummy_eq bind_fault_def read_local_def
  from reads_definedD [OF assms g1]
  consider (decl) "invalid_declaring_class jv r1 stored = Inr True"
      "warn_invalid_declaring_class jv ?m stored = Inr ()" "declaring_class_fails jv mid"
    | (found) "invalid_declaring_class jv r1 stored = Inr False" "stored = Some ?c"
      "declaring_class_found jv mid" "\<not> declaring_class_fails jv mid"
    by blast
  then show ?thesis
  proof cases
    case decl
    then show ?thesis by (simp add: defs)
  next
    case found
    consider (sig) "r2 \<noteq> JVMTI_ERROR_NONE"
      | (name) "r2 = JVMTI_ERROR_NONE" "r3 \<noteq> JVMTI_ERROR_NONE"
      | (all) "r2 = JVMTI_ERROR_NONE" "r3 = JVMTI_ERROR_NONE"
      by blast
    then show ?thesis
    proof cases
      case sig
      with found show ?thesis by (simp add: defs)
    next
      case name
      with found show ?thesis by (simp add: defs)
    next
      case all
      with found show ?thesis
        by (cases w) (simp_all add: defs split: sum.splits)
    qed
  qed
qed

lemma body_ok:
  assumes "store_ok st"
    and "dataOfs st + length (concat (method_fields jv mid)) \<le> 2 ^ 30"
    and "ofsIdx st + 4 \<le> length (strOffsets st)"
    and "reads_defined jv mid"
  shows "\<exists>st'. method_names_body jv mid st = Inr st'
           \<and> store_ok st'
           \<and> dataOfs st' = dataOfs st + length (concat (method_fields jv mid))
           \<and> ofsIdx st' = ofsIdx st + 4
           \<and> strOffsets st' =
                take (ofsIdx st) (strOffsets st)
                  @ map Some (offsets_from (dataOfs st) (method_fields jv mid))
                  @ drop (ofsIdx st + 4) (strOffsets st)
           \<and> written st' = written st @ map Some (concat (method_fields jv mid))
           \<and> calls st' = calls st @ method_lookups jv mid"
proof -
  let ?st = "st\<lparr>calls := calls st @ method_lookups jv mid\<rparr>"
  have ok: "store_ok ?st" using assms(1) by (simp add: store_ok_def split: option.splits)
  have w: "written ?st = written st" by (simp add: written_def split: option.splits)
  from copy_all_ok [of ?st "method_fields jv mid"] ok assms(2,3) w
  show ?thesis by (simp add: body_eq [OF assms(4)] length_method_fields)
qed

lemma offsets_from_append:
  "offsets_from d (xs @ ys) = offsets_from d xs @ offsets_from (d + length (concat xs)) ys"
  by (induction xs arbitrary: d) (simp_all add: add.assoc)

lemma length_offsets_from [simp]: "length (offsets_from d ss) = length ss"
  by (induction ss arbitrary: d) simp_all

lemma loop_ok:
  assumes "store_ok st"
    and "dataOfs st + length (concat (concat (map (method_fields jv) mids))) \<le> 2 ^ 30"
    and "ofsIdx st + 4 * length mids \<le> length (strOffsets st)"
    and "batch_defined jv mids"
  shows "\<exists>st'. method_names_loop jv mids st = Inr st'
           \<and> store_ok st'
           \<and> dataOfs st' = dataOfs st + length (concat (concat (map (method_fields jv) mids)))
           \<and> ofsIdx st' = ofsIdx st + 4 * length mids
           \<and> strOffsets st' =
                take (ofsIdx st) (strOffsets st)
                  @ map Some (offsets_from (dataOfs st) (concat (map (method_fields jv) mids)))
                  @ drop (ofsIdx st + 4 * length mids) (strOffsets st)
           \<and> written st' = written st @ map Some (concat (concat (map (method_fields jv) mids)))
           \<and> calls st' = calls st @ concat (map (method_lookups jv) mids)"
  using assms
proof (induction mids arbitrary: st)
  case Nil
  then show ?case by simp
next
  case (Cons mid mids)
  let ?f = "method_fields jv mid"
  let ?rest = "concat (map (method_fields jv) mids)"
  from Cons.prems have b1: "dataOfs st + length (concat ?f) \<le> 2 ^ 30"
    and r1: "ofsIdx st + 4 \<le> length (strOffsets st)"
    and d1: "reads_defined jv mid" and d2: "batch_defined jv mids"
    by (simp_all add: batch_defined_def)
  from body_ok [OF Cons.prems(1) b1 r1 d1] obtain st1 where
    st1: "method_names_body jv mid st = Inr st1" "store_ok st1"
      "dataOfs st1 = dataOfs st + length (concat ?f)" "ofsIdx st1 = ofsIdx st + 4"
      "strOffsets st1 =
         take (ofsIdx st) (strOffsets st) @ map Some (offsets_from (dataOfs st) ?f)
           @ drop (ofsIdx st + 4) (strOffsets st)"
      "written st1 = written st @ map Some (concat ?f)"
      "calls st1 = calls st @ method_lookups jv mid"
    by blast
  have len1: "length (strOffsets st1) = length (strOffsets st)"
    using st1(5) r1 by (simp add: length_method_fields)
  have b2: "dataOfs st1 + length (concat ?rest) \<le> 2 ^ 30"
    using Cons.prems(2) st1(3) by simp
  have r2: "ofsIdx st1 + 4 * length mids \<le> length (strOffsets st1)"
    using Cons.prems(3) st1(4) len1 by simp
  from Cons.IH [OF st1(2) b2 r2 d2] obtain st2 where
    st2: "method_names_loop jv mids st1 = Inr st2" "store_ok st2"
      "dataOfs st2 = dataOfs st1 + length (concat ?rest)"
      "ofsIdx st2 = ofsIdx st1 + 4 * length mids"
      "strOffsets st2 =
         take (ofsIdx st1) (strOffsets st1) @ map Some (offsets_from (dataOfs st1) ?rest)
           @ drop (ofsIdx st1 + 4 * length mids) (strOffsets st1)"
      "written st2 = written st1 @ map Some (concat ?rest)"
      "calls st2 = calls st1 @ concat (map (method_lookups jv) mids)"
    by blast
  have t: "take (ofsIdx st + 4) (strOffsets st1) =
      take (ofsIdx st) (strOffsets st) @ map Some (offsets_from (dataOfs st) ?f)"
    using st1(5) r1 by (simp add: length_method_fields)
  have d: "drop (ofsIdx st + 4 + 4 * length mids) (strOffsets st1) =
      drop (ofsIdx st + 4 + 4 * length mids) (strOffsets st)"
    using st1(5) r1 by (simp add: length_method_fields ac_simps)
  have offs: "strOffsets st2 =
      take (ofsIdx st) (strOffsets st)
        @ map Some (offsets_from (dataOfs st) (concat (map (method_fields jv) (mid # mids))))
        @ drop (ofsIdx st + 4 * length (mid # mids)) (strOffsets st)"
    using st2(5) st1(3,4) t d
    by (simp add: offsets_from_append add.assoc)
  show ?case
    using st1 st2 offs by (simp add: bind_fault_def)
qed

lemma read_cells_Some:
  "n \<le> length b \<Longrightarrow> take n b = map Some xs \<Longrightarrow> read_cells b n = Inr xs"
  by (auto simp: read_cells_def comp_def)

lemma resolve_result:
  assumes "batch_fits jv mids" and "batch_defined jv mids"
  shows "getMethodNamesForJMethodIds jv mids =
           Inr (concat (concat (map (method_fields jv) mids)),
                offsets_from 0 (concat (map (method_fields jv) mids)),
                concat (map (method_lookups jv) mids))"
proof -
  let ?n = "length mids"
  let ?fs = "concat (map (method_fields jv) mids)"
  let ?st0 = "\<lparr>heap = (\<lambda>_. None), brk = 0, byteData = 0,
                strOffsets = replicate (?n * PACKEDARR_ITEMS) None,
                byteDataLen = ?n * PACKEDARR_ITEMS * 10,
                dataOfs = 0, ofsIdx = 0, calls = []\<rparr>"
  let ?st2 = "(snd (malloc (byteDataLen ?st0) ?st0))\<lparr>byteData := fst (malloc (byteDataLen ?st0) ?st0)\<rparr>"
  from assms(1) have n: "?n * PACKEDARR_ITEMS * 10 \<le> INT_MAX"
    and t: "length (concat ?fs) \<le> 2 ^ 30" by (simp_all add: batch_fits_def)
  have ok: "store_ok ?st2" by (simp add: store_ok_def malloc_def)
  have d0: "dataOfs ?st2 = 0" and o0: "ofsIdx ?st2 = 0" and c0: "calls ?st2 = []"
    and so: "strOffsets ?st2 = replicate (4 * ?n) None"
    by (simp_all add: malloc_def PACKEDARR_ITEMS_def mult.commute)
  have w0: "written ?st2 = []" by (simp add: written_def malloc_def)
  have b: "dataOfs ?st2 + length (concat ?fs) \<le> 2 ^ 30" using t d0 by simp
  have r: "ofsIdx ?st2 + 4 * ?n \<le> length (strOffsets ?st2)" using o0 so by simp
  from loop_ok [OF ok b r assms(2)] obtain st3 where
    st3: "method_names_loop jv mids ?st2 = Inr st3" "store_ok st3"
      "dataOfs st3 = dataOfs ?st2 + length (concat ?fs)"
      "strOffsets st3 =
         take (ofsIdx ?st2) (strOffsets ?st2) @ map Some (offsets_from (dataOfs ?st2) ?fs)
           @ drop (ofsIdx ?st2 + 4 * ?n) (strOffsets ?st2)"
      "written st3 = written ?st2 @ map Some (concat ?fs)"
      "calls st3 = calls ?st2 @ concat (map (method_lookups jv) mids)"
    by blast
  from st3(2) obtain blk where blk: "heap st3 (byteData st3) = Some blk"
      "length blk = byteDataLen st3" "dataOfs st3 \<le> byteDataLen st3"
    by (auto simp: store_ok_def split: option.splits)
  have lenfs: "length ?fs = 4 * ?n"
    by (induction mids) (simp_all add: length_method_fields)
  have w: "take (dataOfs st3) blk = map Some (concat ?fs)"
    using st3(5) blk(1) w0 by (simp add: written_def)
  have rd1: "read_cells blk (dataOfs st3) = Inr (concat ?fs)"
    using blk w by (intro read_cells_Some) simp_all
  have so3: "strOffsets st3 = map Some (offsets_from 0 ?fs)"
    using st3(4) d0 o0 so by (simp add: lenfs)
  have rd2: "read_cells (strOffsets st3) (?n * PACKEDARR_ITEMS) = Inr (offsets_from 0 ?fs)"
    by (rule read_cells_Some) (simp_all add: so3 lenfs PACKEDARR_ITEMS_def)
  have fr: "free (byteData st3) st3 = Inr (st3\<lparr>heap := (heap st3)(byteData st3 := None)\<rparr>)"
    using blk(1) by (simp add: free_def)
  have "getMethodNamesForJMethodIds jv mids =
      bind_fault (method_names_loop jv mids ?st2)
        (\<lambda>st3. case heap st3 (byteData st3) of
                  None \<Rightarrow> Inl InvalidPointer
                | Some b \<Rightarrow>
                    bind_fault (read_cells b (dataOfs st3))
                      (\<lambda>ret. bind_fault
                                (read_cells (strOffsets st3) (?n * PACKEDARR_ITEMS))
                                (\<lambda>offs. bind_fault (free (byteData st3) st3)
                                           (\<lambda>st4. Inr (ret, offs, calls st4)))))"
    using n by (simp add: getMethodNamesForJMethodIds_def Let_def split_beta)
  also have "\<dots> = Inr (concat ?fs, offsets_from 0 ?fs, concat (map (method_lookups jv) mids))"
    using st3(1,6) c0 by (simp add: bind_fault_def blk(1) rd1 rd2 fr)
  finally show ?thesis .
qed

section \<open>Properties of the packed result\<close>

lemma offsets_from_nth:
  "k < length ss \<Longrightarrow> offsets_from d ss ! k = d + length (concat (take k ss))"
proof (induction ss arbitrary: d k)
  case Nil
  then show ?case by simp
next
  case (Cons s ss)
  then show ?case by (cases k) simp_all
qed

lemma offsets_from_lower: "x \<in> set (offsets_from d ss) \<Longrightarrow> d \<le> x"
  by (induction ss arbitrary: d) fastforce+

lemma sorted_offsets_from: "sorted (offsets_from d ss)"
  by (induction ss arbitrary: d) (auto dest: offsets_from_lower)

lemma field_end_concat:
  assumes "k < length ss"
  shows "field_end (concat ss) (offsets_from 0 ss) k = length (concat (take (Suc k) ss))"
proof (cases "Suc k < length ss")
  case True
  then show ?thesis by (simp add: field_end_def offsets_from_nth)
next
  case False
  with assms have "Suc k = length ss" by simp
  then show ?thesis by (simp add: field_end_def)
qed

lemma concat_take_Suc:
  "k < length ss \<Longrightarrow> concat (take (Suc k) ss) = concat (take k ss) @ ss ! k"
  by (simp add: take_Suc_conv_app_nth)

lemma field_at_concat:
  assumes "k < length ss"
  shows "field_at (concat ss) (offsets_from 0 ss) k = ss ! k"
proof -
  have split: "concat ss = concat (take k ss) @ ss ! k @ concat (drop (Suc k) ss)"
    using assms by (metis append_Cons append_Nil concat.simps(2) concat_append id_take_nth_drop)
  have e: "field_end (concat ss) (offsets_from 0 ss) k - offsets_from 0 ss ! k = length (ss ! k)"
    using assms by (simp add: field_end_concat offsets_from_nth concat_take_Suc)
  have "drop (offsets_from 0 ss ! k) (concat ss) = ss ! k @ concat (drop (Suc k) ss)"
    using assms by (subst split) (simp add: offsets_from_nth)
  with e show ?thesis by (simp add: field_at_def)
qed

lemma field_length_concat:
  assumes "k < length ss"
  shows "field_length (concat ss) (offsets_from 0 ss) k = int (length (ss ! k))"
  using assms by (simp add: field_length_def field_end_concat offsets_from_nth concat_take_Suc)

lemma sum_field_lengths:
  "(\<Sum>k<length ss. field_length (concat ss) (offsets_from 0 ss) k) = int (length (concat ss))"
proof -
  have "(\<Sum>k<length ss. field_length (concat ss) (offsets_from 0 ss) k)
      = (\<Sum>k<length ss. int (length (ss ! k)))"
    by (rule sum.cong) (simp_all add: field_length_concat)
  also have "\<dots> = int (\<Sum>k<length ss. length (ss ! k))" by simp
  also have "(\<Sum>k<length ss. length (ss ! k)) = sum_list (map length ss)"
    by (simp add: sum_list_sum_nth atLeast0LessThan)
  also have "\<dots> = length (concat ss)" by (simp add: length_concat)
  finally show ?thesis .
qed

lemma concat_nth_uniform:
  assumes "\<forall>xs \<in> set xss. length xs = n" and "i < length xss" and "k < n"
  shows "concat xss ! (n * i + k) = xss ! i ! k"
  using assms
proof (induction xss arbitrary: i)
  case Nil
  then show ?case by simp
next
  case (Cons xs xss)
  show ?case
  proof (cases i)
    case 0
    with Cons.prems show ?thesis by (simp add: nth_append)
  next
    case (Suc j)
    with Cons.prems have "concat xss ! (n * j + k) = xss ! j ! k"
      by (intro Cons.IH) simp_all
    with Suc Cons.prems show ?thesis by (simp add: nth_append)
  qed
qed

lemma list4: "length xs = 4 \<Longrightarrow> xs = [xs ! 0, xs ! 1, xs ! 2, xs ! 3]"
  by (cases xs; cases "tl xs"; cases "tl (tl xs)"; cases "tl (tl (tl xs))") auto

lemma upt4: "[4 * i ..< 4 * i + 4] = [4 * i, 4 * i + 1, 4 * i + 2, 4 * i + 3]"
  by (simp add: upt_rec)

lemma record_at_concat:
  assumes "i < length mids"
  shows "record_at (concat (concat (map (method_fields jv) mids)))
           (offsets_from 0 (concat (map (method_fields jv) mids))) i
         = method_fields jv (mids ! i)"
proof -
  let ?rs = "map (method_fields jv) mids"
  let ?fs = "concat ?rs"
  have u: "\<forall>xs \<in> set ?rs. length xs = 4" by (auto simp: length_method_fields)
  have lenfs: "length ?fs = 4 * length mids"
    by (induction mids) (simp_all add: length_method_fields)
  have f: "field_at (concat ?fs) (offsets_from 0 ?fs) (4 * i + k) = method_fields jv (mids ! i) ! k"
    if "k < 4" for k
  proof -
    have "4 * i + k < length ?fs" using assms that lenfs by simp
    then have "field_at (concat ?fs) (offsets_from 0 ?fs) (4 * i + k) = ?fs ! (4 * i + k)"
      by (rule field_at_concat)
    also have "\<dots> = ?rs ! i ! k" using u assms that by (intro concat_nth_uniform) simp_all
    finally show ?thesis using assms by simp
  qed
  have "record_at (concat ?fs) (offsets_from 0 ?fs) i =
      [method_fields jv (mids ! i) ! 0, method_fields jv (mids ! i) ! 1,
       method_fields jv (mids ! i) ! 2, method_fields jv (mids ! i) ! 3]"
    using f [of 0] f [of 1] f [of 2] f [of 3] by (simp add: record_at_def upt4)
  also have "\<dots> = method_fields jv (mids ! i)"
    by (rule list4 [symmetric]) (rule length_method_fields)
  finally show ?thesis .
qed

section \<open>Properties of the method-name resolution\<close>

lemmas sample_defs = jv_sample_def convert_jlong_to_jmethodID_def
  convert_jmethodID_to_jlong_def JVMTI_ERROR_NONE_def NULL_def
  declaring_class_check_def declaring_class_fails_def declaring_class_found_def
  declaring_class_of_def reads_defined_def invalid_declaring_class_def
  warn_invalid_declaring_class_def read_int_def read_local_def bind_fault_def
  class_signature_fails_def method_name_fails_def native_flag_fails_def
  class_signature_of_def strip_class_signature_def native_flag_def char_at_def

lemma length_all_fields:
  "length (concat (map (method_fields jv) mids)) = 4 * length mids"
  by (induction mids) (simp_all add: length_method_fields)

lemma defined_batch_offsets:
  assumes "batch_fits jv mids" and "batch_defined jv mids"
  shows "\<exists>ret offs cl. getMethodNamesForJMethodIds jv mids = Inr (ret, offs, cl)
           \<and> length offs = 4 * length mids
           \<and> sorted offs
           \<and> (\<forall>k<length offs. 0 \<le> field_length ret offs k)
           \<and> (\<Sum>k<length offs. field_length ret offs k) = int (length ret)"
proof -
  let ?fs = "concat (map (method_fields jv) mids)"
  have "\<forall>k<length (offsets_from 0 ?fs). 0 \<le> field_length (concat ?fs) (offsets_from 0 ?fs) k"
    by (simp add: field_length_concat)
  moreover have "(\<Sum>k<length (offsets_from 0 ?fs). field_length (concat ?fs) (offsets_from 0 ?fs) k)
      = int (length (concat ?fs))"
    using sum_field_lengths [of ?fs] by simp
  ultimately show ?thesis
    using resolve_result [OF assms] sorted_offsets_from [of 0 ?fs] length_all_fields [of jv mids]
    by simp
qed

lemma L_form_iff:
  "(char_at cs 0 = CHR ''L'' \<and> char_at cs (length cs - 1) = CHR '';'')
     \<longleftrightarrow> (\<exists>name. cs = CHR ''L'' # name @ '';'')"
proof
  assume a: "char_at cs 0 = CHR ''L'' \<and> char_at cs (length cs - 1) = CHR '';''"
  then have ne: "cs \<noteq> []" by (auto simp: char_at_def)
  then obtain c rest where cs: "cs = c # rest" by (cases cs) auto
  with a have c: "c = CHR ''L''" by (simp add: char_at_def)
  from a cs c have rest: "rest \<noteq> []" by (auto simp: char_at_def)
  then have "rest = butlast rest @ [last rest]" by simp
  moreover from a cs rest have "last rest = CHR '';''"
    by (simp add: char_at_def last_conv_nth)
  ultimately have "cs = CHR ''L'' # butlast rest @ '';''" using cs c by simp
  then show "\<exists>name. cs = CHR ''L'' # name @ '';''" by blast
next
  assume "\<exists>name. cs = CHR ''L'' # name @ '';''"
  then show "char_at cs 0 = CHR ''L'' \<and> char_at cs (length cs - 1) = CHR '';''"
    by (auto simp: char_at_def nth_append)
qed

lemma strip_L_form: "strip_class_signature (CHR ''L'' # name @ '';'') = name"
proof -
  have "char_at (CHR ''L'' # name @ '';'') 0 = CHR ''L''
      \<and> char_at (CHR ''L'' # name @ '';'') (length (CHR ''L'' # name @ '';'') - 1) = CHR '';''"
    by (subst L_form_iff) blast
  then show ?thesis by (simp add: strip_class_signature_def butlast_append)
qed

lemma strip_other_form:
  "\<forall>name. cs \<noteq> CHR ''L'' # name @ '';'' \<Longrightarrow> strip_class_signature cs = cs"
  using L_form_iff [of cs] by (auto simp: strip_class_signature_def)

lemma field_at_record: "field_at ret offs (4 * i) = record_at ret offs i ! 0"
  by (simp add: record_at_def upt4)

lemma length_concat_take: "length (concat (take n ss)) \<le> length (concat ss)"
proof -
  have "concat ss = concat (take n ss) @ concat (drop n ss)"
    by (metis append_take_drop_id concat_append)
  then show ?thesis by (metis le_add1 length_append)
qed

lemma sample_fields:
  "method_fields jv_sample 1 = [''com/example/Foo'', ''run'', ''()V'', ''0'']"
  "method_fields jv_sample 2 = [''com/example/Foo'', ''run'', ''()V'', ''0'']"
  "method_fields jv_sample 4 = [''I'', ''run'', ''()V'', ''0'']"
  "method_fields jv_sample 5 = [''[I'', ''run'', ''()V'', ''0'']"
  "method_fields jv_sample 6 = [''<unknown class>'', ''<unknown method>'', ''()V'', ''0'']"
  "method_fields jv_sample 9 = [''<unknown class>'', ''<unknown method>'', ''()V'', ''0'']"
  "method_fields jv_sample 11 = [''<unknown class>'', ''<unknown method>'', ''()V'', ''0'']"
  by (simp_all add: method_fields_def dummy_names_def sample_defs)

lemma sample_reads_defined:
  "reads_defined jv_sample 1" "reads_defined jv_sample 2" "reads_defined jv_sample 4"
  "reads_defined jv_sample 5" "reads_defined jv_sample 6" "reads_defined jv_sample 9"
  "reads_defined jv_sample 11"
  by (simp_all add: sample_defs)

lemma sample_batch_defined: "batch_defined jv_sample sample_batch"
  by (simp add: batch_defined_def sample_batch_def sample_reads_defined)

lemma sample_batch_fits: "batch_fits jv_sample sample_batch"
  by (simp add: batch_fits_def sample_batch_def sample_fields PACKEDARR_ITEMS_def INT_MAX_def)

section \<open>Properties of the frame buffers\<close>

declare convert_frames.simps [simp del]

lemma convert_frames_ok:
  "count \<le> length frames \<Longrightarrow> count \<le> length ids \<Longrightarrow> i \<le> count \<Longrightarrow>
   convert_frames i count frames ids =
     Inr (take i ids
          @ map (\<lambda>f. convert_jmethodID_to_jlong (method f)) (take (count - i) (drop i frames))
          @ drop count ids)"
proof (induction i count frames ids rule: convert_frames.induct)
  case (1 i count frames ids)
  show ?case
  proof (cases "i < count")
    case True
    with "1.prems" have inb: "\<not> (length frames \<le> i \<or> length ids \<le> i)" by simp
    let ?ids = "ids[i := convert_jmethodID_to_jlong (method (frames ! i))]"
    have "convert_frames (Suc i) count frames ?ids =
       Inr (take (Suc i) ?ids
          @ map (\<lambda>f. convert_jmethodID_to_jlong (method f)) (take (count - Suc i) (drop (Suc i) frames))
          @ drop count ?ids)"
      using True inb "1.prems" by (intro "1.IH") simp_all
    moreover have "take (Suc i) ?ids = take i ids @ [convert_jmethodID_to_jlong (method (frames ! i))]"
      using inb by (simp add: take_Suc_conv_app_nth)
    moreover have "drop count ?ids = drop count ids" using True by simp
    moreover have "take (count - i) (drop i frames) = frames ! i # take (count - Suc i) (drop (Suc i) frames)"
      using True inb by (metis Cons_nth_drop_Suc Suc_diff_Suc not_le_imp_less take_Suc_Cons)
    ultimately show ?thesis
      using True inb by (subst convert_frames.simps) simp
  next
    case False
    with "1.prems" have "i = count" by simp
    then show ?thesis by (subst convert_frames.simps) simp
  qed
qed

lemma convert_frames_all:
  "count \<le> length frames \<Longrightarrow> count \<le> length ids \<Longrightarrow>
   convert_frames 0 count frames ids =
     Inr (map (\<lambda>f. convert_jmethodID_to_jlong (method f)) (take count frames) @ drop count ids)"
  using convert_frames_ok [of count frames ids 0] by simp

lemma run_calls_paired:
  assumes "\<forall>c \<in> set cs. allocation_succeeds c"
    and "stack_frames_buffer s = None \<longleftrightarrow> stack_id_buffer s = None"
    and "\<forall>frames ids. stack_frames_buffer s = Some frames \<and> stack_id_buffer s = Some ids
            \<longrightarrow> length frames = length ids"
  shows "(stack_frames_buffer (run_calls cs s) = None \<longleftrightarrow> stack_id_buffer (run_calls cs s) = None)
    \<and> (\<forall>frames ids. stack_frames_buffer (run_calls cs s) = Some frames
            \<and> stack_id_buffer (run_calls cs s) = Some ids \<longrightarrow> length frames = length ids)"
  using assms
proof (induction cs arbitrary: s)
  case Nil
  then show ?case by simp
next
  case (Cons c cs)
  have "(stack_frames_buffer (run_call c s) = None \<longleftrightarrow> stack_id_buffer (run_call c s) = None)
     \<and> (\<forall>frames ids. stack_frames_buffer (run_call c s) = Some frames
            \<and> stack_id_buffer (run_call c s) = Some ids \<longrightarrow> length frames = length ids)"
    using Cons.prems
    by (cases c) (auto simp: createNativeStackFrameBuffer_def clearNativeStackFrameBuffer_def
        calloc_def Let_def)
  with Cons.IH [of "run_call c s"] Cons.prems(1) show ?case by simp
qed

lemma take_exact: "length xs = k \<Longrightarrow> take k (xs @ ys) = xs"
  by auto

lemma SetLongArrayRegion_ok:
  "arrays v r = Some (LongArray out) \<Longrightarrow> count \<le> length out \<Longrightarrow> count \<le> length buf \<Longrightarrow>
   SetLongArrayRegion (Ref r) 0 count buf v
     = Inr (write_array r (LongArray (take count buf @ drop count out)) v)"
  by (simp add: SetLongArrayRegion_def)

lemma sample_stored:
  assumes "stack_frames_buffer s = Some frames" and "stack_id_buffer s = Some ids"
    and "GetStackTrace jv jni_thread 0 depth = (JVMTI_ERROR_NONE, stored)"
    and "length stored \<le> length frames" and "length stored \<le> length ids"
    and "arrays v r = Some (LongArray out)" and "length stored \<le> length out"
  shows "getCurrentStackFrameIds jv jni_thread depth (Ref r) (s, v) =
           Inr (s\<lparr>stack_frames_buffer := Some (stored @ drop (length stored) frames),
                  stack_id_buffer :=
                    Some (map (\<lambda>f. convert_jmethodID_to_jlong (method f)) stored
                          @ drop (length stored) ids)\<rparr>,
                write_array r
                  (LongArray (map (\<lambda>f. convert_jmethodID_to_jlong (method f)) stored
                              @ drop (length stored) out)) v,
                length stored)"
proof -
  let ?count = "length stored"
  let ?frames1 = "stored @ drop ?count frames"
  let ?new = "map (\<lambda>f. convert_jmethodID_to_jlong (method f)) stored"
  have "convert_frames 0 ?count ?frames1 ids =
      Inr (map (\<lambda>f. convert_jmethodID_to_jlong (method f)) (take ?count ?frames1) @ drop ?count ids)"
    using assms(4,5) by (intro convert_frames_all) simp_all
  then have cf: "convert_frames 0 ?count ?frames1 ids = Inr (?new @ drop ?count ids)"
    by simp
  have "SetLongArrayRegion (Ref r) 0 ?count (?new @ drop ?count ids) v
      = Inr (write_array r (LongArray (take ?count (?new @ drop ?count ids) @ drop ?count out)) v)"
    using assms(5,6,7) by (intro SetLongArrayRegion_ok) simp_all
  then have set: "SetLongArrayRegion (Ref r) 0 ?count (?new @ drop ?count ids) v
      = Inr (write_array r (LongArray (?new @ drop ?count out)) v)"
    by simp
  show ?thesis
    using assms(1-4) cf set
    by (simp add: getCurrentStackFrameIds_def Let_def bind_fault_def)
qed

section \<open>Properties of getAllStackTraces\<close>

lemma convert_frames_fresh:
  "convert_frames 0 (length fb) fb (replicate (length fb) 0)
     = Inr (map (\<lambda>f. convert_jmethodID_to_jlong (method f)) fb)"
  using convert_frames_all [of "length fb" fb "replicate (length fb) 0"] by simp

lemma one_thread:
  assumes ta: "arrays v ta = Some (ObjectArray ts)"
    and fa: "arrays v fa = Some (ObjectArray fs)"
    and ne: "ta \<noteq> fa" and lt: "ta < next_ref v" "fa < next_ref v"
    and ti: "ti < length ts" "ti < length fs" "ti < length sb"
  shows "\<exists>v4. all_stack_traces_loop cv (Ref ta) (Ref fa) ti (infop # rest) sb v
               = all_stack_traces_loop cv (Ref ta) (Ref fa) (Suc ti) rest
                   (sb[ti := cv (state infop)]) v4
           \<and> arrays v4 ta = Some (ObjectArray (ts[ti := thread infop]))
           \<and> arrays v4 fa = Some (ObjectArray (fs[ti := Ref (next_ref v)]))
           \<and> arrays v4 (next_ref v) = Some (LongArray (frame_ids infop))
           \<and> next_ref v4 = Suc (next_ref v)
           \<and> (\<forall>r. r \<noteq> ta \<and> r \<noteq> fa \<and> r \<noteq> next_ref v \<longrightarrow> arrays v4 r = arrays v r)
           \<and> journal v4 = journal v @ [Written ta, Written fa, Written (next_ref v)]"
proof -
  let ?n = "next_ref v"
  let ?v1 = "write_array ta (ObjectArray (ts[ti := thread infop])) v"
  have s1: "SetObjectArrayElement (Ref ta) ti (thread infop) v = Inr ?v1"
    using ta ti by (simp add: SetObjectArrayElement_def)
  let ?fc = "length (frame_buffer infop)"
  let ?v2 = "?v1\<lparr>arrays := (arrays ?v1)(?n \<mapsto> LongArray (replicate ?fc 0)),
                   next_ref := Suc ?n\<rparr>"
  have n2: "NewLongArray ?fc ?v1 = (Ref ?n, ?v2)"
    by (simp add: NewLongArray_def new_array_def write_array_def)
  have a2: "arrays ?v2 fa = Some (ObjectArray fs)" "arrays ?v2 ?n = Some (LongArray (replicate ?fc 0))"
    using fa ne lt by (simp_all add: NewLongArray_def new_array_def write_array_def)
  let ?v3 = "write_array fa (ObjectArray (fs[ti := Ref ?n])) ?v2"
  have s3: "SetObjectArrayElement (Ref fa) ti (Ref ?n) ?v2 = Inr ?v3"
    using a2 ti by (simp add: SetObjectArrayElement_def)
  have a3: "arrays ?v3 ?n = Some (LongArray (replicate ?fc 0))"
    using a2 lt by (simp add: write_array_def)
  let ?v4 = "write_array ?n (LongArray (frame_ids infop)) ?v3"
  have s4: "SetLongArrayRegion (Ref ?n) 0 ?fc (frame_ids infop) ?v3 = Inr ?v4"
    using a3 by (simp add: SetLongArrayRegion_def frame_ids_def)
  have step: "all_stack_traces_loop cv (Ref ta) (Ref fa) ti (infop # rest) sb v
               = all_stack_traces_loop cv (Ref ta) (Ref fa) (Suc ti) rest
                   (sb[ti := cv (state infop)]) ?v4"
  proof -
    have cf: "convert_frames 0 ?fc (frame_buffer infop) (replicate ?fc 0) = Inr (frame_ids infop)"
      by (simp add: convert_frames_fresh frame_ids_def)
    show ?thesis
      using ti(3) by (simp add: s1 n2 s3 s4 cf bind_fault_def Let_def)
  qed
  have "arrays ?v4 ta = Some (ObjectArray (ts[ti := thread infop]))"
    using ne lt by (simp add: write_array_def NewLongArray_def new_array_def)
  moreover have "arrays ?v4 fa = Some (ObjectArray (fs[ti := Ref ?n]))"
    using ne lt by (simp add: write_array_def NewLongArray_def new_array_def)
  moreover have "arrays ?v4 ?n = Some (LongArray (frame_ids infop))"
    by (simp add: write_array_def)
  moreover have "next_ref ?v4 = Suc ?n"
    by (simp add: write_array_def NewLongArray_def new_array_def)
  moreover have "\<forall>r. r \<noteq> ta \<and> r \<noteq> fa \<and> r \<noteq> ?n \<longrightarrow> arrays ?v4 r = arrays v r"
    by (simp add: write_array_def NewLongArray_def new_array_def)
  moreover have "journal ?v4 = journal v @ [Written ta, Written fa, Written ?n]"
    by (simp add: write_array_def NewLongArray_def new_array_def)
  ultimately show ?thesis using step by blast
qed

lemma map_upt_Suc_shift: "map f [0..<Suc n] = f 0 # map (\<lambda>k. f (Suc k)) [0..<n]"
  by (simp add: upt_conv_Cons map_Suc_upt [symmetric] del: upt_Suc)

lemma loop_result:
  assumes "arrays v ta = Some (ObjectArray ts)"
    and "arrays v fa = Some (ObjectArray fs)"
    and "ta \<noteq> fa" and "ta < next_ref v" and "fa < next_ref v"
    and "length ts = ti + length rest" and "length fs = ti + length rest"
    and "length sb = ti + length rest"
  shows "\<exists>sb' v'. all_stack_traces_loop cv (Ref ta) (Ref fa) ti rest sb v = Inr (sb', v')
           \<and> sb' = take ti sb @ map (\<lambda>i. cv (state i)) rest
           \<and> arrays v' ta = Some (ObjectArray (take ti ts @ map thread rest))
           \<and> arrays v' fa =
               Some (ObjectArray (take ti fs @ map (\<lambda>k. Ref (next_ref v + k)) [0..<length rest]))
           \<and> (\<forall>k<length rest. arrays v' (next_ref v + k) = Some (LongArray (frame_ids (rest ! k))))
           \<and> next_ref v' = next_ref v + length rest
           \<and> (\<forall>r. r < next_ref v \<and> r \<noteq> ta \<and> r \<noteq> fa \<longrightarrow> arrays v' r = arrays v r)
           \<and> (\<exists>ws. journal v' = journal v @ ws \<and> Deallocated \<notin> set ws)"
  using assms
proof (induction rest arbitrary: ti sb v ts fs)
  case Nil
  then show ?case by simp
next
  case (Cons infop rest)
  let ?n = "next_ref v"
  have ti: "ti < length ts" "ti < length fs" "ti < length sb"
    using Cons.prems(6,7,8) by simp_all
  from one_thread [OF Cons.prems(1,2,3,4,5) ti, of cv infop rest] obtain v4 where
    v4: "all_stack_traces_loop cv (Ref ta) (Ref fa) ti (infop # rest) sb v
               = all_stack_traces_loop cv (Ref ta) (Ref fa) (Suc ti) rest
                   (sb[ti := cv (state infop)]) v4"
      "arrays v4 ta = Some (ObjectArray (ts[ti := thread infop]))"
      "arrays v4 fa = Some (ObjectArray (fs[ti := Ref ?n]))"
      "arrays v4 ?n = Some (LongArray (frame_ids infop))"
      "next_ref v4 = Suc ?n"
      "\<forall>r. r \<noteq> ta \<and> r \<noteq> fa \<and> r \<noteq> ?n \<longrightarrow> arrays v4 r = arrays v r"
      "journal v4 = journal v @ [Written ta, Written fa, Written ?n]"
    by blast
  have p: "ta < next_ref v4" "fa < next_ref v4"
    "length (ts[ti := thread infop]) = Suc ti + length rest"
    "length (fs[ti := Ref ?n]) = Suc ti + length rest"
    "length (sb[ti := cv (state infop)]) = Suc ti + length rest"
    using Cons.prems v4(5) by simp_all
  from Cons.IH [OF v4(2,3) Cons.prems(3) p] obtain sb' v' ws where
    r: "all_stack_traces_loop cv (Ref ta) (Ref fa) (Suc ti) rest (sb[ti := cv (state infop)]) v4
          = Inr (sb', v')"
      "sb' = take (Suc ti) (sb[ti := cv (state infop)]) @ map (\<lambda>i. cv (state i)) rest"
      "arrays v' ta = Some (ObjectArray (take (Suc ti) (ts[ti := thread infop]) @ map thread rest))"
      "arrays v' fa = Some (ObjectArray (take (Suc ti) (fs[ti := Ref ?n])
                        @ map (\<lambda>k. Ref (next_ref v4 + k)) [0..<length rest]))"
      "\<forall>k<length rest. arrays v' (next_ref v4 + k) = Some (LongArray (frame_ids (rest ! k)))"
      "next_ref v' = next_ref v4 + length rest"
      "\<forall>r. r < next_ref v4 \<and> r \<noteq> ta \<and> r \<noteq> fa \<longrightarrow> arrays v' r = arrays v4 r"
      "journal v' = journal v4 @ ws" "Deallocated \<notin> set ws"
    by blast
  have c1: "sb' = take ti sb @ map (\<lambda>i. cv (state i)) (infop # rest)"
    using r(2) ti by (simp add: take_Suc_conv_app_nth)
  have c2: "arrays v' ta = Some (ObjectArray (take ti ts @ map thread (infop # rest)))"
    using r(3) ti by (simp add: take_Suc_conv_app_nth)
  have c3: "arrays v' fa = Some (ObjectArray (take ti fs
              @ map (\<lambda>k. Ref (?n + k)) [0..<length (infop # rest)]))"
    using r(4) ti v4(5)
    by (simp add: take_Suc_conv_app_nth map_upt_Suc_shift del: upt_Suc)
  have c4: "arrays v' (?n + k) = Some (LongArray (frame_ids ((infop # rest) ! k)))"
    if "k < length (infop # rest)" for k
  proof (cases k)
    case 0
    have "arrays v' ?n = arrays v4 ?n"
      using r(7) v4(5) Cons.prems(4,5) by simp
    with 0 v4(4) show ?thesis by simp
  next
    case (Suc j)
    with that r(5) v4(5) show ?thesis by simp
  qed
  have c5: "next_ref v' = ?n + length (infop # rest)" using r(6) v4(5) by simp
  have c6: "arrays v' r = arrays v r" if "r < ?n" "r \<noteq> ta" "r \<noteq> fa" for r
    using that r(7) v4(5,6) by simp
  have c7: "journal v' = journal v @ ([Written ta, Written fa, Written ?n] @ ws)"
    "Deallocated \<notin> set ([Written ta, Written fa, Written ?n] @ ws)"
    using r(8,9) v4(7) by simp_all
  have e: "all_stack_traces_loop cv (Ref ta) (Ref fa) ti (infop # rest) sb v = Inr (sb', v')"
    using v4(1) r(1) by simp
  show ?case
  proof (intro exI conjI)
    show "all_stack_traces_loop cv (Ref ta) (Ref fa) ti (infop # rest) sb v = Inr (sb', v')"
      by (rule e)
    show "sb' = take ti sb @ map (\<lambda>i. cv (state i)) (infop # rest)" by (rule c1)
    show "arrays v' ta = Some (ObjectArray (take ti ts @ map thread (infop # rest)))"
      by (rule c2)
    show "arrays v' fa = Some (ObjectArray (take ti fs
              @ map (\<lambda>k. Ref (?n + k)) [0..<length (infop # rest)]))"
      by (rule c3)
    show "\<forall>k<length (infop # rest).
            arrays v' (?n + k) = Some (LongArray (frame_ids ((infop # rest) ! k)))"
      using c4 by blast
    show "next_ref v' = ?n + length (infop # rest)" by (rule c5)
    show "\<forall>r. r < ?n \<and> r \<noteq> ta \<and> r \<noteq> fa \<longrightarrow> arrays v' r = arrays v r"
      using c6 by blast
    show "journal v' = journal v @ ([Written ta, Written fa, Written ?n] @ ws)"
      by (rule c7(1))
    show "Deallocated \<notin> set ([Written ta, Written fa, Written ?n] @ ws)"
      by (rule c7(2))
  qed
qed

lemma all_stack_traces_result:
  assumes g: "GetAllStackTraces jv MAX_FRAMES = (JVMTI_ERROR_NONE, infos)"
    and d: "Deallocate jv = JVMTI_ERROR_NONE"
    and a: "arrays v a = Some (ObjectArray xa)" "xa \<noteq> []" "a < next_ref v"
    and b: "arrays v b = Some (ObjectArray xb)" "xb \<noteq> []" "b < next_ref v"
    and c: "arrays v c = Some (ObjectArray xc)" "xc \<noteq> []" "c < next_ref v"
    and ne: "a \<noteq> b" "a \<noteq> c" "b \<noteq> c"
  shows "\<exists>s' v'. getAllStackTraces jv env cv (Ref a) (Ref b) (Ref c) (s, v) = Inr (s', v')
           \<and> arrays v' a = Some (ObjectArray (xa[0 := Ref (next_ref v)]))
           \<and> arrays v' b = Some (ObjectArray (xb[0 := Ref (next_ref v + 1)]))
           \<and> arrays v' c = Some (ObjectArray (xc[0 := Ref (next_ref v + 2)]))
           \<and> arrays v' (next_ref v) = Some (ObjectArray (map thread infos))
           \<and> arrays v' (next_ref v + 1) = Some (IntArray (map (\<lambda>i. cv (state i)) infos))
           \<and> arrays v' (next_ref v + 2) =
               Some (ObjectArray (map (\<lambda>k. Ref (next_ref v + 3 + k)) [0..<length infos]))
           \<and> (\<forall>k<length infos.
                 arrays v' (next_ref v + 3 + k) = Some (LongArray (frame_ids (infos ! k))))"
proof -
  let ?n = "next_ref v" and ?N = "length infos"
  let ?s1 = "if threadType s = Null
             then s\<lparr>threadType := NewGlobalRef (FindClass env ''java/lang/Thread'')\<rparr> else s"
  let ?s2 = "if longArrType ?s1 = Null
             then ?s1\<lparr>longArrType := NewGlobalRef (FindClass env ''[J'')\<rparr> else ?s1"
  let ?v1 = "v\<lparr>arrays := (arrays v)(?n \<mapsto> ObjectArray (replicate ?N Null)), next_ref := Suc ?n\<rparr>"
  have n1: "NewObjectArray ?N (threadType ?s2) Null v = (Ref ?n, ?v1)"
    by (simp add: NewObjectArray_def new_array_def)
  let ?v2 = "write_array a (ObjectArray (xa[0 := Ref ?n])) ?v1"
  have e2: "SetObjectArrayElement (Ref a) 0 (Ref ?n) ?v1 = Inr ?v2"
    using a by (simp add: SetObjectArrayElement_def)
  let ?v3 = "?v2\<lparr>arrays := (arrays ?v2)(Suc ?n \<mapsto> IntArray (replicate ?N 0)),
                  next_ref := Suc (Suc ?n)\<rparr>"
  have n3: "NewIntArray ?N ?v2 = (Ref (Suc ?n), ?v3)"
    by (simp add: NewIntArray_def new_array_def write_array_def)
  let ?v4 = "write_array b (ObjectArray (xb[0 := Ref (Suc ?n)])) ?v3"
  have e4: "SetObjectArrayElement (Ref b) 0 (Ref (Suc ?n)) ?v3 = Inr ?v4"
    using b ne by (simp add: SetObjectArrayElement_def write_array_def)
  let ?v5 = "?v4\<lparr>arrays := (arrays ?v4)(Suc (Suc ?n) \<mapsto> ObjectArray (replicate ?N Null)),
                  next_ref := Suc (Suc (Suc ?n))\<rparr>"
  have n5: "NewObjectArray ?N (longArrType ?s2) Null ?v4 = (Ref (Suc (Suc ?n)), ?v5)"
    by (simp add: NewObjectArray_def new_array_def write_array_def)
  let ?v6 = "write_array c (ObjectArray (xc[0 := Ref (Suc (Suc ?n))])) ?v5"
  have e6: "SetObjectArrayElement (Ref c) 0 (Ref (Suc (Suc ?n))) ?v5 = Inr ?v6"
    using c ne by (simp add: SetObjectArrayElement_def write_array_def)
  have v6: "arrays ?v6 a = Some (ObjectArray (xa[0 := Ref ?n]))"
    "arrays ?v6 b = Some (ObjectArray (xb[0 := Ref (Suc ?n)]))"
    "arrays ?v6 c = Some (ObjectArray (xc[0 := Ref (Suc (Suc ?n))]))"
    "arrays ?v6 ?n = Some (ObjectArray (replicate ?N Null))"
    "arrays ?v6 (Suc ?n) = Some (IntArray (replicate ?N 0))"
    "arrays ?v6 (Suc (Suc ?n)) = Some (ObjectArray (replicate ?N Null))"
    "next_ref ?v6 = Suc (Suc (Suc ?n))"
    using a(3) b(3) c(3) ne by (simp_all add: write_array_def)
  have l: "?n \<noteq> Suc (Suc ?n)" "?n < next_ref ?v6" "Suc (Suc ?n) < next_ref ?v6"
    "length (replicate ?N Null :: jobject list) = 0 + ?N"
    "length (replicate ?N (0::int)) = 0 + ?N"
    by (simp_all add: write_array_def)
  from loop_result [OF v6(4) v6(6) l(1,2,3,4,4,5), of cv] obtain sb' v7 where
    v7: "all_stack_traces_loop cv (Ref ?n) (Ref (Suc (Suc ?n))) 0 infos (replicate ?N 0) ?v6
           = Inr (sb', v7)"
      "sb' = take 0 (replicate ?N 0) @ map (\<lambda>i. cv (state i)) infos"
      "arrays v7 ?n = Some (ObjectArray (take 0 (replicate ?N Null) @ map thread infos))"
      "arrays v7 (Suc (Suc ?n)) =
         Some (ObjectArray (take 0 (replicate ?N Null)
                 @ map (\<lambda>k. Ref (next_ref ?v6 + k)) [0..<?N]))"
      "\<forall>k<?N. arrays v7 (next_ref ?v6 + k) = Some (LongArray (frame_ids (infos ! k)))"
      "\<forall>r. r < next_ref ?v6 \<and> r \<noteq> ?n \<and> r \<noteq> Suc (Suc ?n) \<longrightarrow> arrays v7 r = arrays ?v6 r"
    by blast
  have keep: "arrays v7 a = arrays ?v6 a" "arrays v7 b = arrays ?v6 b" "arrays v7 c = arrays ?v6 c"
    "arrays v7 (Suc ?n) = arrays ?v6 (Suc ?n)"
    using v7(6) v6(7) a(3) b(3) c(3) by simp_all
  let ?v8 = "write_array (Suc ?n) (IntArray sb') v7"
  have sbl: "length sb' = ?N" using v7(2) by simp
  have e8: "SetIntArrayRegion (Ref (Suc ?n)) 0 ?N sb' v7 = Inr ?v8"
    using keep(4) v6(5) sbl by (simp add: SetIntArrayRegion_def)
  let ?v9 = "?v8\<lparr>journal := journal ?v8 @ [Deallocated]\<rparr>"
  have run: "getAllStackTraces jv env cv (Ref a) (Ref b) (Ref c) (s, v) = Inr (?s2, ?v9)"
    unfolding getAllStackTraces_def
    by (simp only: g d split_conv Let_def n1 e2 n3 e4 n5 e6 v7(1) e8 bind_fault_def
          sum.case simp_thms if_False refl)
  have "arrays ?v9 a = Some (ObjectArray (xa[0 := Ref ?n]))"
    using keep(1) v6(1) a(3) by (simp add: write_array_def)
  moreover have "arrays ?v9 b = Some (ObjectArray (xb[0 := Ref (?n + 1)]))"
    using keep(2) v6(2) b(3) by (simp add: write_array_def)
  moreover have "arrays ?v9 c = Some (ObjectArray (xc[0 := Ref (?n + 2)]))"
    using keep(3) v6(3) c(3) by (simp add: write_array_def)
  moreover have "arrays ?v9 ?n = Some (ObjectArray (map thread infos))"
    using v7(3) by (simp add: write_array_def)
  moreover have "arrays ?v9 (?n + 1) = Some (IntArray (map (\<lambda>i. cv (state i)) infos))"
    using v7(2) by (simp add: write_array_def)
  moreover have "arrays ?v9 (?n + 2) = Some (ObjectArray (map (\<lambda>k. Ref (?n + 3 + k)) [0..<?N]))"
    using v7(4) v6(7) by (simp add: write_array_def)
  moreover have "\<forall>k<?N. arrays ?v9 (?n + 3 + k) = Some (LongArray (frame_ids (infos ! k)))"
    using v7(5) v6(7) by (simp add: write_array_def numeral_3_eq_3)
  ultimately show ?thesis using run by blast
qed

lemma bind_fault_Inr: "bind_fault r f = Inr y \<Longrightarrow> \<exists>x. r = Inr x \<and> f x = Inr y"
  by (cases r) (simp_all add: bind_fault_def)

lemma extends_refl [simp]: "extends_by_writes v v"
  by (simp add: extends_by_writes_def)

lemma extends_trans:
  "extends_by_writes v v1 \<Longrightarrow> extends_by_writes v1 v2 \<Longrightarrow> extends_by_writes v v2"
  by (auto simp: extends_by_writes_def)

lemma extends_write [simp]: "extends_by_writes v (write_array r x v)"
  by (simp add: extends_by_writes_def write_array_def)

lemma extends_new [simp]: "extends_by_writes v (snd (new_array x v))"
  by (simp add: extends_by_writes_def new_array_def)

lemma SetObjectArrayElement_extends:
  "SetObjectArrayElement arr i x v = Inr v' \<Longrightarrow> extends_by_writes v v'"
  by (auto simp: SetObjectArrayElement_def
      split: jobject.splits option.splits jarray.splits if_splits)

lemma SetLongArrayRegion_extends:
  "SetLongArrayRegion arr i n buf v = Inr v' \<Longrightarrow> extends_by_writes v v'"
  by (auto simp: SetLongArrayRegion_def
      split: jobject.splits option.splits jarray.splits if_splits)

lemma SetIntArrayRegion_extends:
  "SetIntArrayRegion arr i n buf v = Inr v' \<Longrightarrow> extends_by_writes v v'"
  by (auto simp: SetIntArrayRegion_def
      split: jobject.splits option.splits jarray.splits if_splits)

lemma loop_extends:
  "all_stack_traces_loop cv ja ma ti rest sb v = Inr (sb', v') \<Longrightarrow> extends_by_writes v v'"
proof (induction rest arbitrary: ti sb v)
  case Nil
  then show ?case by simp
next
  case (Cons infop rest)
  let ?fc = "length (frame_buffer infop)"
  from Cons.prems obtain v1 where
    v1: "SetObjectArrayElement ja ti (thread infop) v = Inr v1"
    and r1: "(if length sb \<le> ti then Inl OutOfBounds
              else
                (let state_buffer1 = sb[ti := cv (state infop)];
                     frame_count = length (frame_buffer infop);
                     (jmethodIdArr, v2) = NewLongArray frame_count v1
                 in bind_fault (SetObjectArrayElement ma ti jmethodIdArr v2)
                      (\<lambda>v3. bind_fault
                                (convert_frames 0 frame_count (frame_buffer infop)
                                   (replicate frame_count 0))
                                (\<lambda>id_buffer.
                                   bind_fault
                                     (SetLongArrayRegion jmethodIdArr 0 frame_count id_buffer v3)
                                     (\<lambda>v4. all_stack_traces_loop cv ja ma
                                              (Suc ti) rest state_buffer1 v4))))) = Inr (sb', v')"
    by (auto dest!: bind_fault_Inr)
  obtain jm v2 where n2: "NewLongArray ?fc v1 = (jm, v2)" by (cases "NewLongArray ?fc v1")
  then have x2: "extends_by_writes v1 v2"
    using extends_new [of v1 "LongArray (replicate ?fc 0)"] by (simp add: NewLongArray_def)
  from r1 n2 obtain v3 idb v4 where
    v3: "SetObjectArrayElement ma ti jm v2 = Inr v3"
    and v4: "SetLongArrayRegion jm 0 ?fc idb v3 = Inr v4"
    and rest: "all_stack_traces_loop cv ja ma (Suc ti) rest (sb[ti := cv (state infop)]) v4
                = Inr (sb', v')"
    by (auto simp: Let_def split: if_splits dest!: bind_fault_Inr)
  from SetObjectArrayElement_extends [OF v1] x2 SetObjectArrayElement_extends [OF v3]
    SetLongArrayRegion_extends [OF v4] Cons.IH [OF rest]
  show ?case by (blast intro: extends_trans)
qed

lemma all_stack_traces_journal:
  assumes "getAllStackTraces jv env cv threads states frames (s, v) = Inr (s', v')"
    and "fst (GetAllStackTraces jv MAX_FRAMES) = JVMTI_ERROR_NONE"
  shows "\<exists>ws. journal v' = journal v @ ws @ [Deallocated] \<and> Deallocated \<notin> set ws"
proof -
  obtain infos where g: "GetAllStackTraces jv MAX_FRAMES = (JVMTI_ERROR_NONE, infos)"
    using assms(2) by (cases "GetAllStackTraces jv MAX_FRAMES") simp
  let ?N = "length infos"
  let ?A = "ObjectArray (replicate ?N Null)" and ?B = "IntArray (replicate ?N 0)"
  from assms(1) g obtain v2 v4 v6 sb v7 v8 where
    v2: "SetObjectArrayElement threads 0 (fst (new_array ?A v)) (snd (new_array ?A v)) = Inr v2"
    and v4: "SetObjectArrayElement states 0 (fst (new_array ?B v2)) (snd (new_array ?B v2)) = Inr v4"
    and v6: "SetObjectArrayElement frames 0 (fst (new_array ?A v4)) (snd (new_array ?A v4)) = Inr v6"
    and v7: "all_stack_traces_loop cv (fst (new_array ?A v)) (fst (new_array ?A v4)) 0 infos
               (replicate ?N 0) v6 = Inr (sb, v7)"
    and v8: "SetIntArrayRegion (fst (new_array ?B v2)) 0 ?N sb v7 = Inr v8"
    and v': "v' = v8\<lparr>journal := journal v8 @ [Deallocated]\<rparr>"
    by (auto simp: getAllStackTraces_def Let_def NewObjectArray_def NewIntArray_def split_beta
        dest!: bind_fault_Inr split: if_splits)
  have "extends_by_writes v v8"
    using extends_new [of v ?A] SetObjectArrayElement_extends [OF v2]
      extends_new [of v2 ?B] SetObjectArrayElement_extends [OF v4]
      extends_new [of v4 ?A] SetObjectArrayElement_extends [OF v6]
      loop_extends [OF v7] SetIntArrayRegion_extends [OF v8]
    by (blast intro: extends_trans)
  then show ?thesis using v' by (auto simp: extends_by_writes_def)
qed

lemma holder_array_Ref:
  "arrays v r = Some (ObjectArray xs) \<Longrightarrow> xs \<noteq> [] \<Longrightarrow> xs ! 0 = Ref t \<Longrightarrow>
   holder_array v (Ref r) = arrays v t"
  by (cases xs) (simp_all add: holder_array_def)

lemma holders_okD:
  assumes "holders_ok v threads states frames"
  shows "\<exists>a b c xa xb xc.
           threads = Ref a \<and> states = Ref b \<and> frames = Ref c
         \<and> arrays v a = Some (ObjectArray xa) \<and> xa \<noteq> [] \<and> a < next_ref v
         \<and> arrays v b = Some (ObjectArray xb) \<and> xb \<noteq> [] \<and> b < next_ref v
         \<and> arrays v c = Some (ObjectArray xc) \<and> xc \<noteq> [] \<and> c < next_ref v
         \<and> a \<noteq> b \<and> a \<noteq> c \<and> b \<noteq> c"
  using assms
  by (auto simp: holders_ok_def is_holder_def split: jobject.splits option.splits jarray.splits)

lemma snapshot_read:
  assumes "arrays v' a = Some (ObjectArray (xa[0 := Ref n]))" and "xa \<noteq> []"
    and "arrays v' b = Some (ObjectArray (xb[0 := Ref (n + 1)]))" and "xb \<noteq> []"
    and "arrays v' c = Some (ObjectArray (xc[0 := Ref (n + 2)]))" and "xc \<noteq> []"
    and "arrays v' n = Some (ObjectArray (map thread infos))"
    and "arrays v' (n + 1) = Some (IntArray (map (\<lambda>i. cv (state i)) infos))"
    and "arrays v' (n + 2) = Some (ObjectArray (map (\<lambda>k. Ref (n + 3 + k)) [0..<length infos]))"
    and "\<forall>k<length infos. arrays v' (n + 3 + k) = Some (LongArray (frame_ids (infos ! k)))"
  shows "snapshot_lengths v' (Ref a) (Ref b) (Ref c)
           = Some (length infos, length infos, length infos)
         \<and> (\<forall>i<length infos.
               snapshot_entry v' (Ref a) (Ref b) (Ref c) i
                 = Some (thread (infos ! i), cv (state (infos ! i)), frame_ids (infos ! i)))"
proof -
  have ha: "holder_array v' (Ref a) = Some (ObjectArray (map thread infos))"
    using holder_array_Ref [OF assms(1), of n] assms(2,7) by simp
  have hb: "holder_array v' (Ref b) = Some (IntArray (map (\<lambda>i. cv (state i)) infos))"
    using holder_array_Ref [OF assms(3), of "n + 1"] assms(4,8) by simp
  have hc: "holder_array v' (Ref c)
      = Some (ObjectArray (map (\<lambda>k. Ref (n + 3 + k)) [0..<length infos]))"
    using holder_array_Ref [OF assms(5), of "n + 2"] assms(6,9) by simp
  show ?thesis
    using assms(10) by (simp add: snapshot_lengths_def snapshot_entry_def ha hb hc)
qed

lemma sample_snapshot:
  "GetAllStackTraces jv_sample MAX_FRAMES =
     (JVMTI_ERROR_NONE,
      [\<lparr>thread = Ref 1, state = 5, frame_buffer = sample_stack\<rparr>,
       \<lparr>thread = Ref 2, state = 1025, frame_buffer = [frame_at 3]\<rparr>])"
  by (simp add: jv_sample_def MAX_FRAMES_def JVMTI_ERROR_NONE_def sample_stack_def)

lemma sample_holders: "holders_ok vm_holders (Ref 0) (Ref 1) (Ref 2)"
  by (simp add: holders_ok_def is_holder_def vm_holders_def)

lemma sample_deallocate: "Deallocate jv_sample = JVMTI_ERROR_NONE"
  by (simp add: jv_sample_def JVMTI_ERROR_NONE_def)

lemma sample_run:
  "\<exists>s' v'. getAllStackTraces jv_sample env_sample status_sample (Ref 0) (Ref 1) (Ref 2)
             (initial_statics, vm_holders) = Inr (s', v')"
proof -
  have "arrays vm_holders 0 = Some (ObjectArray [Null])" "arrays vm_holders 1 = Some (ObjectArray [Null])"
    "arrays vm_holders 2 = Some (ObjectArray [Null])" "0 < next_ref vm_holders"
    "1 < next_ref vm_holders" "2 < next_ref vm_holders"
    by (simp_all add: vm_holders_def)
  from all_stack_traces_result [OF sample_snapshot sample_deallocate this(1) _ this(4) this(2) _
      this(5) this(3) _ this(6), of env_sample status_sample initial_statics]
  show ?thesis by auto
qed

section \<open>Handles whose reads have no value\<close>

lemma loop_append:
  "method_names_loop jv (xs @ ys) st
     = bind_fault (method_names_loop jv xs st) (method_names_loop jv ys)"
  by (induction xs arbitrary: st) (simp_all add: bind_fault_def split: sum.splits)

lemma body_undefined:
  assumes "\<not> reads_defined jv mid"
  shows "\<exists>e. \<forall>st. method_names_body jv mid st = Inl e"
proof -
  let ?m = "convert_jlong_to_jmethodID mid"
  obtain r1 stored where g1: "GetMethodDeclaringClass jv ?m = (r1, stored)"
    by (cases "GetMethodDeclaringClass jv ?m")
  show ?thesis
  proof (cases "invalid_declaring_class jv r1 stored")
    case (Inl e)
    then show ?thesis by (simp add: method_names_body_def g1 Let_def bind_fault_def)
  next
    case (Inr invalid)
    with assms g1 have i: "invalid"
      and w: "warn_invalid_declaring_class jv ?m stored \<noteq> Inr ()"
      by (auto simp: reads_defined_def declaring_class_check_def split: if_splits)
    from w obtain e where "warn_invalid_declaring_class jv ?m stored = Inl e"
      by (cases "warn_invalid_declaring_class jv ?m stored") auto
    with Inr i show ?thesis
      by (simp add: method_names_body_def g1 Let_def bind_fault_def)
  qed
qed

lemma resolve_fault:
  assumes "mids = xs @ y # ys"
    and "length mids * PACKEDARR_ITEMS * 10 \<le> INT_MAX"
    and "length (concat (concat (map (method_fields jv) xs))) \<le> 2 ^ 30"
    and "batch_defined jv xs"
    and "\<forall>st. method_names_body jv y st = Inl e"
  shows "getMethodNamesForJMethodIds jv mids = Inl e"
proof -
  let ?n = "length mids"
  let ?st0 = "\<lparr>heap = (\<lambda>_. None), brk = 0, byteData = 0,
                strOffsets = replicate (?n * PACKEDARR_ITEMS) None,
                byteDataLen = ?n * PACKEDARR_ITEMS * 10,
                dataOfs = 0, ofsIdx = 0, calls = []\<rparr>"
  let ?st2 = "(snd (malloc (byteDataLen ?st0) ?st0))\<lparr>byteData := fst (malloc (byteDataLen ?st0) ?st0)\<rparr>"
  have ok: "store_ok ?st2" by (simp add: store_ok_def malloc_def)
  have b: "dataOfs ?st2 + length (concat (concat (map (method_fields jv) xs))) \<le> 2 ^ 30"
    using assms(3) by (simp add: malloc_def)
  have "length xs \<le> ?n" using assms(1) by simp
  then have r: "ofsIdx ?st2 + 4 * length xs \<le> length (strOffsets ?st2)"
    by (simp add: malloc_def PACKEDARR_ITEMS_def)
  from loop_ok [OF ok b r assms(4)] obtain st3 where
    "method_names_loop jv xs ?st2 = Inr st3" by blast
  then have "method_names_loop jv (xs @ y # ys) ?st2 = Inl e"
    using assms(5) by (simp add: loop_append bind_fault_def)
  then have l: "method_names_loop jv mids ?st2 = Inl e" using assms(1) by simp
  have eq: "getMethodNamesForJMethodIds jv mids =
      bind_fault (method_names_loop jv mids ?st2)
        (\<lambda>st3. case heap st3 (byteData st3) of
                  None \<Rightarrow> Inl InvalidPointer
                | Some b \<Rightarrow>
                    bind_fault (read_cells b (dataOfs st3))
                      (\<lambda>ret. bind_fault
                                (read_cells (strOffsets st3) (?n * PACKEDARR_ITEMS))
                                (\<lambda>offs. bind_fault (free (byteData st3) st3)
                                           (\<lambda>st4. Inr (ret, offs, calls st4)))))"
    using assms(2) by (simp add: getMethodNamesForJMethodIds_def Let_def split_beta)
  show ?thesis unfolding eq l by (simp add: bind_fault_def)
qed

lemma undefined_handle_faults:
  assumes "mids = xs @ y # ys"
    and "length mids * PACKEDARR_ITEMS * 10 \<le> INT_MAX"
    and "length (concat (concat (map (method_fields jv) xs))) \<le> 2 ^ 30"
    and "batch_defined jv xs"
    and "\<not> reads_defined jv y"
  shows "\<exists>e. getMethodNamesForJMethodIds jv mids = Inl e"
proof -
  from body_undefined [OF assms(5)] obtain e where
    "\<forall>st. method_names_body jv y st = Inl e" by blast
  from resolve_fault [OF assms(1-4) this] show ?thesis by blast
qed


section \<open>The growable byte store keeps what was written\<close>

text \<open>
  Claim C2. Take a store whose block is live and any sequence \<open>ss\<close> of strings that
  fits the offset array and the range of \<open>int\<close>. Appending them all succeeds, and
  the used part of the final block is the used part at the start followed by the
  concatenation of the strings, byte for byte. Every single append of the sequence
  follows the growth rule: if the string does not fit the capacity, the new capacity is
  the maximum of twice the old capacity and the length needed, the old block is released
  and the block in use is another one; in either case the bytes written before are
  still in front of the new ones.
\<close>

theorem byte_store_no_loss:
  assumes "store_ok st"
    and "dataOfs st + length (concat ss) \<le> 2 ^ 30"
    and "ofsIdx st + length ss \<le> length (strOffsets st)"
  shows "(\<exists>st'. copy_all ss st = Inr st'
            \<and> dataOfs st' = dataOfs st + length (concat ss)
            \<and> written st' = written st @ map Some (concat ss))
         \<and> (\<forall>n<length ss. \<exists>st1 st2.
               copy_all (take n ss) st = Inr st1
             \<and> copy_into_data_array (ss ! n) st1 = Inr st2
             \<and> byteDataLen st2 =
                 (if byteDataLen st1 < dataOfs st1 + length (ss ! n)
                  then max (byteDataLen st1 * 2) (dataOfs st1 + length (ss ! n))
                  else byteDataLen st1)
             \<and> (byteDataLen st1 < dataOfs st1 + length (ss ! n) \<longrightarrow>
                  heap st2 (byteData st1) = None \<and> byteData st2 \<noteq> byteData st1)
             \<and> written st2 = written st1 @ map Some (ss ! n))"
proof (intro conjI allI impI)
  from copy_all_ok [OF assms]
  show "\<exists>st'. copy_all ss st = Inr st'
            \<and> dataOfs st' = dataOfs st + length (concat ss)
            \<and> written st' = written st @ map Some (concat ss)"
    by blast
next
  fix n assume n: "n < length ss"
  have b1: "dataOfs st + length (concat (take n ss)) \<le> 2 ^ 30"
    using assms(2) length_concat_take [of n ss] by linarith
  have r1: "ofsIdx st + length (take n ss) \<le> length (strOffsets st)"
    using assms(3) n by simp
  from copy_all_ok [OF assms(1) b1 r1] obtain st1 where
    st1: "copy_all (take n ss) st = Inr st1" "store_ok st1"
      "dataOfs st1 = dataOfs st + length (concat (take n ss))"
      "ofsIdx st1 = ofsIdx st + length (take n ss)"
      "strOffsets st1 =
         take (ofsIdx st) (strOffsets st) @ map Some (offsets_from (dataOfs st) (take n ss))
           @ drop (ofsIdx st + length (take n ss)) (strOffsets st)"
    by blast
  have "length (concat (take (Suc n) ss)) \<le> length (concat ss)"
    by (rule length_concat_take)
  then have b2: "dataOfs st1 + length (ss ! n) \<le> 2 ^ 30"
    using assms(2) st1(3) n by (simp add: take_Suc_conv_app_nth)
  have len: "length (strOffsets st1) = length (strOffsets st)"
    using st1(5) r1 by simp
  have r2: "ofsIdx st1 < length (strOffsets st1)"
    using assms(3) st1(4) n len by simp
  from copy_step [OF st1(2) b2 r2] obtain st2 where
    st2: "copy_into_data_array (ss ! n) st1 = Inr st2"
      "written st2 = written st1 @ map Some (ss ! n)"
      "byteDataLen st2 =
         (if byteDataLen st1 < dataOfs st1 + length (ss ! n)
          then max (byteDataLen st1 * 2) (dataOfs st1 + length (ss ! n)) else byteDataLen st1)"
      "if byteDataLen st1 < dataOfs st1 + length (ss ! n)
       then heap st2 (byteData st1) = None \<and> byteData st2 = brk st1
       else byteData st2 = byteData st1"
    by blast
  have "byteData st1 < brk st1" using st1(2) by (simp add: store_ok_def)
  with st2(4) have rel: "byteDataLen st1 < dataOfs st1 + length (ss ! n) \<longrightarrow>
      heap st2 (byteData st1) = None \<and> byteData st2 \<noteq> byteData st1"
    by (auto split: if_splits)
  show "\<exists>st1 st2.
               copy_all (take n ss) st = Inr st1
             \<and> copy_into_data_array (ss ! n) st1 = Inr st2
             \<and> byteDataLen st2 =
                 (if byteDataLen st1 < dataOfs st1 + length (ss ! n)
                  then max (byteDataLen st1 * 2) (dataOfs st1 + length (ss ! n))
                  else byteDataLen st1)
             \<and> (byteDataLen st1 < dataOfs st1 + length (ss ! n) \<longrightarrow>
                  heap st2 (byteData st1) = None \<and> byteData st2 \<noteq> byteData st1)
             \<and> written st2 = written st1 @ map Some (ss ! n)"
    using st1(1) st2(1,2,3) rel by blast
qed

text \<open>The theorem at a store of capacity 2 that receives six bytes in three appends.\<close>

theorem byte_store_no_loss_witness:
  "store_ok st_small
   \<and> dataOfs st_small + length (concat [''ab'', ''cde'', ''f'']) \<le> 2 ^ 30
   \<and> ofsIdx st_small + length [''ab'', ''cde'', ''f''] \<le> length (strOffsets st_small)
   \<and> (\<exists>st'. copy_all [''ab'', ''cde'', ''f''] st_small = Inr st'
          \<and> dataOfs st' = 6 \<and> written st' = map Some ''abcdef'')
   \<and> (\<exists>st1 st2. copy_all [''ab''] st_small = Inr st1
          \<and> copy_into_data_array ''cde'' st1 = Inr st2
          \<and> written st2 = written st1 @ map Some ''cde'')"
proof -
  have h1: "store_ok st_small" by (simp add: store_ok_def st_small_def)
  have h2: "dataOfs st_small + length (concat [''ab'', ''cde'', ''f'']) \<le> 2 ^ 30"
    by (simp add: st_small_def)
  have h3: "ofsIdx st_small + length [''ab'', ''cde'', ''f''] \<le> length (strOffsets st_small)"
    by (simp add: st_small_def)
  note t = byte_store_no_loss [OF h1 h2 h3]
  have d0: "dataOfs st_small = 0" and w0: "written st_small = []"
    by (simp_all add: st_small_def written_def)
  from t obtain st' where st': "copy_all [''ab'', ''cde'', ''f''] st_small = Inr st'"
    "dataOfs st' = dataOfs st_small + length (concat [''ab'', ''cde'', ''f''])"
    "written st' = written st_small @ map Some (concat [''ab'', ''cde'', ''f''])"
    by blast
  have a: "\<exists>st'. copy_all [''ab'', ''cde'', ''f''] st_small = Inr st'
          \<and> dataOfs st' = 6 \<and> written st' = map Some ''abcdef''"
    using st' by (intro exI [of _ st']) (simp add: d0 w0)
  have one: "(1::nat) < length [''ab'', ''cde'', ''f'']" by simp
  from t one obtain st1 st2 where
    s: "copy_all (take 1 [''ab'', ''cde'', ''f'']) st_small = Inr st1"
      "copy_into_data_array ([''ab'', ''cde'', ''f''] ! 1) st1 = Inr st2"
      "written st2 = written st1 @ map Some ([''ab'', ''cde'', ''f''] ! 1)"
    by blast
  have tk: "take 1 [''ab'', ''cde'', ''f''] = [''ab'']" "[''ab'', ''cde'', ''f''] ! 1 = ''cde''"
    by simp_all
  from s have b: "\<exists>st1 st2. copy_all [''ab''] st_small = Inr st1
          \<and> copy_into_data_array ''cde'' st1 = Inr st2
          \<and> written st2 = written st1 @ map Some ''cde''"
    unfolding tk by blast
  from h1 h2 h3 a b show ?thesis by blast
qed

section \<open>The offsets of the packed result\<close>

text \<open>
  Claim C3 asks for 4N well-formed offsets for every batch of N handles. The call does
  not return for the batch that holds handle 8 of the sample runtime alone. The
  declaring-class lookup of the handle reports an error, the condition of the first
  failure branch holds, and the warning of that branch reads \<open>*(int* )methodID\<close> at an
  address that cannot be read, before a placeholder is appended. The same happens when
  handle 8 comes after a handle that resolves. For handle 10, which can be read, the
  warning goes on to read the local \<open>declaringClass\<close>, which the failed lookup has
  left without a value.
\<close>

theorem failed_lookup_warning_faults:
  "declaring_class_check jv_sample 8 = Inr True
   \<and> read_int jv_sample 8 = Inl InvalidPointer
   \<and> getMethodNamesForJMethodIds jv_sample [8] = Inl InvalidPointer
   \<and> getMethodNamesForJMethodIds jv_sample [1, 8] = Inl InvalidPointer
   \<and> declaring_class_check jv_sample 10 = Inr True
   \<and> getMethodNamesForJMethodIds jv_sample [10] = Inl UninitializedRead"
proof -
  have a: "declaring_class_check jv_sample 8 = Inr True"
    "read_int jv_sample 8 = Inl InvalidPointer"
    "declaring_class_check jv_sample 10 = Inr True"
    by (simp_all add: sample_defs)
  have b8: "\<forall>st. method_names_body jv_sample 8 st = Inl InvalidPointer"
    by (simp add: method_names_body_def sample_defs Let_def)
  have b10: "\<forall>st. method_names_body jv_sample 10 st = Inl UninitializedRead"
    by (simp add: method_names_body_def sample_defs Let_def)
  have c8: "getMethodNamesForJMethodIds jv_sample [8] = Inl InvalidPointer"
    by (rule resolve_fault [of _ "[]" 8 "[]", OF _ _ _ _ b8])
      (simp_all add: INT_MAX_def PACKEDARR_ITEMS_def batch_defined_def)
  have c10: "getMethodNamesForJMethodIds jv_sample [10] = Inl UninitializedRead"
    by (rule resolve_fault [of _ "[]" 10 "[]", OF _ _ _ _ b10])
      (simp_all add: INT_MAX_def PACKEDARR_ITEMS_def batch_defined_def)
  have c18: "getMethodNamesForJMethodIds jv_sample [1, 8] = Inl InvalidPointer"
    by (rule resolve_fault [of _ "[1]" 8 "[]", OF _ _ _ _ b8])
      (simp_all add: INT_MAX_def PACKEDARR_ITEMS_def batch_defined_def sample_fields
        sample_reads_defined)
  from a c8 c10 c18 show ?thesis by simp
qed

section \<open>Demangling of the class signature\<close>

text \<open>
  Claim C6. Take a batch whose sizes fit and whose declaring-class reads all have a
  value, so that the call returns. For a handle at position \<open>i\<close> whose declaring class,
  class signature and method name are found, the first field of its record is the class
  signature demangled:
  a signature of the form \<open>L<name>;\<close> gives \<open><name>\<close>, the signature without its
  first and last character, and a signature of any other form is passed through as it
  is.
\<close>

theorem class_name_demangled:
  assumes "batch_fits jv mids" and "batch_defined jv mids" and "i < length mids"
    and "declaring_class_found jv (mids ! i)"
    and "\<not> class_signature_fails jv (mids ! i)"
    and "\<not> method_name_fails jv (mids ! i)"
  shows "\<exists>ret offs cl. getMethodNamesForJMethodIds jv mids = Inr (ret, offs, cl)
           \<and> (\<forall>name. class_signature_of jv (mids ! i) = CHR ''L'' # name @ '';''
                 \<longrightarrow> field_at ret offs (4 * i) = name)
           \<and> ((\<forall>name. class_signature_of jv (mids ! i) \<noteq> CHR ''L'' # name @ '';'')
                 \<longrightarrow> field_at ret offs (4 * i) = class_signature_of jv (mids ! i))"
proof -
  let ?fs = "concat (map (method_fields jv) mids)"
  have "field_at (concat ?fs) (offsets_from 0 ?fs) (4 * i)
      = record_at (concat ?fs) (offsets_from 0 ?fs) i ! 0"
    by (rule field_at_record)
  also have "\<dots> = method_fields jv (mids ! i) ! 0"
    using assms(3) by (simp add: record_at_concat)
  also have "\<dots> = strip_class_signature (class_signature_of jv (mids ! i))"
    using assms(4-6)
    by (simp add: method_fields_def declaring_class_found_def declaring_class_fails_def
        Let_def split: prod.splits)
  finally have f: "field_at (concat ?fs) (offsets_from 0 ?fs) (4 * i)
      = strip_class_signature (class_signature_of jv (mids ! i))" by simp
  show ?thesis
    using resolve_result [OF assms(1,2)] f
    by (auto simp: strip_L_form strip_other_form)
qed

text \<open>
  The theorem at the sample batch: \<open>Lcom/example/Foo;\<close> is stored as
  \<open>com/example/Foo\<close>, and \<open>I\<close> and \<open>[I\<close> are stored as they are.
\<close>

theorem class_name_demangled_witness:
  "batch_fits jv_sample sample_batch \<and> batch_defined jv_sample sample_batch
   \<and> 0 < length sample_batch
   \<and> declaring_class_found jv_sample (sample_batch ! 0)
   \<and> \<not> class_signature_fails jv_sample (sample_batch ! 0)
   \<and> \<not> method_name_fails jv_sample (sample_batch ! 0)
   \<and> class_signature_of jv_sample (sample_batch ! 0) = ''Lcom/example/Foo;''
   \<and> class_signature_of jv_sample (sample_batch ! 3) = ''I''
   \<and> class_signature_of jv_sample (sample_batch ! 4) = ''[I''
   \<and> (\<exists>ret offs cl. getMethodNamesForJMethodIds jv_sample sample_batch = Inr (ret, offs, cl)
         \<and> field_at ret offs (4 * 0) = ''com/example/Foo''
         \<and> field_at ret offs (4 * 3) = ''I''
         \<and> field_at ret offs (4 * 4) = ''[I'')"
proof -
  have h: "batch_fits jv_sample sample_batch" by (rule sample_batch_fits)
  have d: "batch_defined jv_sample sample_batch" by (rule sample_batch_defined)
  have n: "sample_batch ! 0 = 1" "sample_batch ! 3 = 4" "sample_batch ! 4 = 5"
    "length sample_batch = 7"
    by (simp_all add: sample_batch_def)
  have ok: "declaring_class_found jv_sample 1" "\<not> class_signature_fails jv_sample 1"
    "\<not> method_name_fails jv_sample 1"
    "declaring_class_found jv_sample 4" "\<not> class_signature_fails jv_sample 4"
    "\<not> method_name_fails jv_sample 4"
    "declaring_class_found jv_sample 5" "\<not> class_signature_fails jv_sample 5"
    "\<not> method_name_fails jv_sample 5"
    by (simp_all add: sample_defs)
  have cs: "class_signature_of jv_sample 1 = CHR ''L'' # ''com/example/Foo'' @ '';''"
    "class_signature_of jv_sample 4 = ''I''" "class_signature_of jv_sample 5 = ''[I''"
    by (simp_all add: sample_defs)
  have other: "\<forall>name. ''I'' \<noteq> CHR ''L'' # name @ '';''" "\<forall>name. ''[I'' \<noteq> CHR ''L'' # name @ '';''"
    by simp_all
  from class_name_demangled [of jv_sample sample_batch 0] h d n ok cs
  obtain ret offs cl where
    r0: "getMethodNamesForJMethodIds jv_sample sample_batch = Inr (ret, offs, cl)"
      "field_at ret offs (4 * 0) = ''com/example/Foo''"
    by auto
  from class_name_demangled [of jv_sample sample_batch 3] h d n ok cs other r0(1)
  have r3: "field_at ret offs (4 * 3) = ''I''" by auto
  from class_name_demangled [of jv_sample sample_batch 4] h d n ok cs other r0(1)
  have r4: "field_at ret offs (4 * 4) = ''[I''" by auto
  from h d n ok cs r0 r3 r4 show ?thesis by simp
qed

section \<open>Placeholder records\<close>




section \<open>Sampling without a frame buffer\<close>

text \<open>
  Claim C7. A call of \<open>getCurrentStackFrameIds\<close> made while \<open>_stack_frames_buffer\<close>
  is \<open>NULL\<close> returns 0 and changes neither the statics nor any array of the virtual
  machine, the caller's output array among them. This is the case after
  \<open>clearNativeStackFrameBuffer\<close>, and after any sequence of calls that ends with it.
\<close>

theorem no_buffer_no_sample:
  "(stack_frames_buffer s = None \<longrightarrow>
      getCurrentStackFrameIds jv jni_thread depth ret (s, v) = Inr (s, v, 0))
   \<and> getCurrentStackFrameIds jv jni_thread depth ret (clearNativeStackFrameBuffer s, v)
       = Inr (clearNativeStackFrameBuffer s, v, 0)
   \<and> getCurrentStackFrameIds jv jni_thread depth ret (run_calls (cs @ [Clear]) s, v)
       = Inr (run_calls (cs @ [Clear]) s, v, 0)"
proof -
  have app: "run_calls (cs @ [Clear]) s = clearNativeStackFrameBuffer (run_calls cs s)"
    by (induction cs arbitrary: s) simp_all
  show ?thesis
    by (simp add: getCurrentStackFrameIds_def clearNativeStackFrameBuffer_def app)
qed

text \<open>The theorem at the initial statics, where no buffer has been created yet.\<close>

theorem no_buffer_no_sample_witness:
  "stack_frames_buffer initial_statics = None
   \<and> getCurrentStackFrameIds jv_sample (Ref 1) 2 (Ref 0) (initial_statics, vm_sample)
       = Inr (initial_statics, vm_sample, 0)"
proof -
  have h: "stack_frames_buffer initial_statics = None" by (simp add: initial_statics_def)
  from no_buffer_no_sample [of initial_statics jv_sample "Ref 1" 2 "Ref 0" vm_sample] h
  show ?thesis by simp
qed

section \<open>Sampling one thread\<close>

text \<open>
  Claim C8. Let both frame buffers be allocated with \<open>n\<close> entries, let \<open>depth\<close> be at
  most \<open>n\<close>, and let the runtime answer \<open>GetStackTrace\<close> for the thread without error
  by storing the first \<open>depth\<close> frames of the thread's stack, innermost first. If the
  caller's array has room for them, the call returns their number, the smaller of
  \<open>depth\<close> and the depth of the stack, and the array holds the 64-bit identifiers of
  these frames in frame order in its first slots and what it held before in the others.
  No other array changes, and the buffers stay allocated.
\<close>

theorem stack_sample:
  assumes "allocated n s"
    and "GetStackTrace jv jni_thread 0 depth = (JVMTI_ERROR_NONE, take (nat depth) stack)"
    and "nat depth \<le> n"
    and "arrays v r = Some (LongArray out)"
    and "min (nat depth) (length stack) \<le> length out"
  shows "\<exists>s' v'. getCurrentStackFrameIds jv jni_thread depth (Ref r) (s, v)
                    = Inr (s', v', min (nat depth) (length stack))
           \<and> arrays v' r =
               Some (LongArray
                 (map (\<lambda>f. convert_jmethodID_to_jlong (method f)) (take (nat depth) stack)
                  @ drop (min (nat depth) (length stack)) out))
           \<and> (\<forall>r'. r' \<noteq> r \<longrightarrow> arrays v' r' = arrays v r')
           \<and> allocated n s'"
proof -
  let ?stored = "take (nat depth) stack"
  from assms(1) obtain frames ids where
    b: "stack_frames_buffer s = Some frames" "stack_id_buffer s = Some ids"
      "length frames = n" "length ids = n"
    by (auto simp: allocated_def split: option.splits)
  have len: "length ?stored = min (nat depth) (length stack)" by (simp add: min.commute)
  have c: "length ?stored \<le> n" using assms(3) by simp
  have o: "length ?stored \<le> length out" using assms(5) len by simp
  note r = sample_stored [OF b(1,2) assms(2) _ _ assms(4) o]
  have "getCurrentStackFrameIds jv jni_thread depth (Ref r) (s, v) =
           Inr (s\<lparr>stack_frames_buffer := Some (?stored @ drop (length ?stored) frames),
                  stack_id_buffer :=
                    Some (map (\<lambda>f. convert_jmethodID_to_jlong (method f)) ?stored
                          @ drop (length ?stored) ids)\<rparr>,
                write_array r
                  (LongArray (map (\<lambda>f. convert_jmethodID_to_jlong (method f)) ?stored
                              @ drop (length ?stored) out)) v,
                length ?stored)"
    using b c by (intro r) simp_all
  moreover have "allocated n (s\<lparr>stack_frames_buffer := Some (?stored @ drop (length ?stored) frames),
                  stack_id_buffer :=
                    Some (map (\<lambda>f. convert_jmethodID_to_jlong (method f)) ?stored
                          @ drop (length ?stored) ids)\<rparr>)"
    using b c by (simp add: allocated_def)
  ultimately show ?thesis
    unfolding len by (simp add: write_array_def)
qed

text \<open>
  The theorem at buffers of four entries and thread 1 of the sample runtime, sampled to
  depth 2 into an array of three longs.
\<close>

theorem stack_sample_witness:
  "allocated 4 (createNativeStackFrameBuffer True True 4 initial_statics)
   \<and> GetStackTrace jv_sample (Ref 1) 0 2 = (JVMTI_ERROR_NONE, take (nat 2) sample_stack)
   \<and> nat 2 \<le> (4::nat)
   \<and> arrays vm_sample 0 = Some (LongArray [9, 9, 9])
   \<and> min (nat 2) (length sample_stack) \<le> length [9::jlong, 9, 9]
   \<and> (\<exists>s' v'. getCurrentStackFrameIds jv_sample (Ref 1) 2 (Ref 0)
                   (createNativeStackFrameBuffer True True 4 initial_statics, vm_sample)
                 = Inr (s', v', 2)
          \<and> arrays v' 0 = Some (LongArray [1, 2, 9]))"
proof -
  have h1: "allocated 4 (createNativeStackFrameBuffer True True 4 initial_statics)"
    by (simp add: allocated_def createNativeStackFrameBuffer_def initial_statics_def calloc_def)
  have h2: "GetStackTrace jv_sample (Ref 1) 0 2 = (JVMTI_ERROR_NONE, take (nat 2) sample_stack)"
    by (simp add: jv_sample_def JVMTI_ERROR_NONE_def)
  have h3: "nat 2 \<le> (4::nat)" by simp
  have h4: "arrays vm_sample 0 = Some (LongArray [9, 9, 9])" by (simp add: vm_sample_def)
  have h5: "min (nat 2) (length sample_stack) \<le> length [9::jlong, 9, 9]"
    by (simp add: sample_stack_def)
  have m: "min (nat 2) (length sample_stack) = 2" by (simp add: sample_stack_def)
  have ids: "map (\<lambda>f. convert_jmethodID_to_jlong (method f)) (take (nat 2) sample_stack)
        @ drop 2 [9::jlong, 9, 9] = [1, 2, 9]"
    by (simp add: sample_stack_def frame_at_def convert_jmethodID_to_jlong_def)
  from stack_sample [OF h1 h2 h3 h4 h5] obtain s' v' where
    "getCurrentStackFrameIds jv_sample (Ref 1) 2 (Ref 0)
       (createNativeStackFrameBuffer True True 4 initial_statics, vm_sample)
     = Inr (s', v', min (nat 2) (length sample_stack))"
    "arrays v' 0 = Some (LongArray
        (map (\<lambda>f. convert_jmethodID_to_jlong (method f)) (take (nat 2) sample_stack)
         @ drop (min (nat 2) (length sample_stack)) [9, 9, 9]))"
    by blast
  then have "getCurrentStackFrameIds jv_sample (Ref 1) 2 (Ref 0)
       (createNativeStackFrameBuffer True True 4 initial_statics, vm_sample)
     = Inr (s', v', 2) \<and> arrays v' 0 = Some (LongArray [1, 2, 9])"
    unfolding m ids by simp
  with h1 h2 h3 h4 h5 show ?thesis by blast
qed

section \<open>The two buffer pointers go together\<close>

text \<open>
  Claim C10. After any sequence of create and clear calls in which every allocation
  succeeds, starting with no buffers, \<open>_stack_frames_buffer\<close> is \<open>NULL\<close> exactly when
  \<open>_stack_id_buffer\<close> is. So whenever the identifier buffer is missing, a sample
  returns 0 and writes nothing. The check of \<open>getCurrentStackFrameIds\<close> itself looks
  at the frame pointer only: in a state with a frame buffer and no identifier buffer a
  sample with at least one frame dereferences \<open>NULL\<close>.
\<close>

theorem buffers_paired:
  assumes "\<forall>c \<in> set cs. allocation_succeeds c"
  shows "(stack_frames_buffer (run_calls cs initial_statics) = None
            \<longleftrightarrow> stack_id_buffer (run_calls cs initial_statics) = None)
         \<and> (stack_id_buffer (run_calls cs initial_statics) = None \<longrightarrow>
              getCurrentStackFrameIds jv jni_thread depth ret (run_calls cs initial_statics, v)
                = Inr (run_calls cs initial_statics, v, 0))
         \<and> (\<forall>s frames stored.
               stack_frames_buffer s = Some frames \<and> stack_id_buffer s = None
               \<and> GetStackTrace jv jni_thread 0 depth = (JVMTI_ERROR_NONE, stored)
               \<and> stored \<noteq> [] \<and> length stored \<le> length frames
               \<longrightarrow> getCurrentStackFrameIds jv jni_thread depth ret (s, v) = Inl NullDereference)"
proof -
  have p: "stack_frames_buffer (run_calls cs initial_statics) = None
            \<longleftrightarrow> stack_id_buffer (run_calls cs initial_statics) = None"
    using run_calls_paired [OF assms, of initial_statics] by (simp add: initial_statics_def)
  have q: "getCurrentStackFrameIds jv jni_thread depth ret (s, v) = Inr (s, v, 0)"
    if "stack_frames_buffer s = None" for s
    using that by (simp add: getCurrentStackFrameIds_def)
  have r: "getCurrentStackFrameIds jv jni_thread depth ret (s, v) = Inl NullDereference"
    if "stack_frames_buffer s = Some frames" "stack_id_buffer s = None"
      "GetStackTrace jv jni_thread 0 depth = (JVMTI_ERROR_NONE, stored)"
      "stored \<noteq> []" "length stored \<le> length frames" for s frames stored
    using that by (simp add: getCurrentStackFrameIds_def Let_def bind_fault_def)
  from p q r show ?thesis by blast
qed

text \<open>The theorem at a sequence that creates, clears and creates again.\<close>

theorem buffers_paired_witness:
  "allocation_succeeds (Create True True 4) \<and> allocation_succeeds Clear
   \<and> allocation_succeeds (Create True True 2)
   \<and> (stack_frames_buffer
         (run_calls [Create True True 4, Clear, Create True True 2] initial_statics) = None
       \<longleftrightarrow> stack_id_buffer
         (run_calls [Create True True 4, Clear, Create True True 2] initial_statics) = None)
   \<and> allocated 2 (run_calls [Create True True 4, Clear, Create True True 2] initial_statics)"
proof -
  have h: "\<forall>c \<in> set [Create True True 4, Clear, Create True True 2]. allocation_succeeds c"
    by simp
  have a: "allocated 2 (run_calls [Create True True 4, Clear, Create True True 2] initial_statics)"
    by (simp add: allocated_def createNativeStackFrameBuffer_def clearNativeStackFrameBuffer_def
        initial_statics_def calloc_def)
  from buffers_paired [OF h, of jv_sample "Ref 1" 2 "Ref 0" vm_sample] h a
  show ?thesis by simp
qed

section \<open>A failed capture\<close>

text \<open>
  Claim C5. If \<open>GetAllStackTraces\<close> reports an error, the call returns with the statics
  and the virtual machine as they were: no array is created or written, and the three
  holders keep the elements they had.
\<close>

theorem failed_capture_changes_nothing:
  assumes "fst (GetAllStackTraces jv MAX_FRAMES) \<noteq> JVMTI_ERROR_NONE"
  shows "getAllStackTraces jv env cv threads states frames (s, v) = Inr (s, v)"
  using assms by (simp add: getAllStackTraces_def split_beta)

text \<open>The theorem at the sample runtime in a phase that allows no stack traces.\<close>

theorem failed_capture_changes_nothing_witness:
  "fst (GetAllStackTraces jv_wrong_phase MAX_FRAMES) \<noteq> JVMTI_ERROR_NONE
   \<and> getAllStackTraces jv_wrong_phase env_sample status_sample (Ref 0) (Ref 1) (Ref 2)
       (initial_statics, vm_holders) = Inr (initial_statics, vm_holders)"
proof -
  have h: "fst (GetAllStackTraces jv_wrong_phase MAX_FRAMES) \<noteq> JVMTI_ERROR_NONE"
    by (simp add: jv_wrong_phase_def JVMTI_ERROR_NONE_def)
  from failed_capture_changes_nothing [OF h] h show ?thesis by simp
qed

section \<open>The three result arrays are aligned\<close>

text \<open>
  Claim C4. Let the three holders be distinct object arrays with an element 0, and let
  \<open>GetAllStackTraces\<close> and \<open>Deallocate\<close> report no error. Then the call returns, the
  three arrays that the holders refer to afterwards have \<open>thread_count\<close> entries each,
  and at every index \<open>i\<close> below \<open>thread_count\<close> they hold the thread handle, the
  translated state and the frame identifiers of one and the same record
  \<open>stack_info[i]\<close>.
\<close>

theorem snapshot_aligned:
  assumes "holders_ok v threads states frames"
    and "GetAllStackTraces jv MAX_FRAMES = (JVMTI_ERROR_NONE, infos)"
    and "Deallocate jv = JVMTI_ERROR_NONE"
  shows "\<exists>s' v'. getAllStackTraces jv env cv threads states frames (s, v) = Inr (s', v')
           \<and> snapshot_lengths v' threads states frames
               = Some (length infos, length infos, length infos)
           \<and> (\<forall>i<length infos.
                 snapshot_entry v' threads states frames i
                   = Some (thread (infos ! i), cv (state (infos ! i)), frame_ids (infos ! i)))"
proof -
  from holders_okD [OF assms(1)] obtain a b c xa xb xc where
    h: "threads = Ref a" "states = Ref b" "frames = Ref c"
    and a: "arrays v a = Some (ObjectArray xa)" "xa \<noteq> []" "a < next_ref v"
    and b: "arrays v b = Some (ObjectArray xb)" "xb \<noteq> []" "b < next_ref v"
    and c: "arrays v c = Some (ObjectArray xc)" "xc \<noteq> []" "c < next_ref v"
    and ne: "a \<noteq> b" "a \<noteq> c" "b \<noteq> c"
    by blast
  let ?n = "next_ref v"
  from all_stack_traces_result [OF assms(2,3) a b c ne, of env cv s] obtain s' v' where
    r: "getAllStackTraces jv env cv (Ref a) (Ref b) (Ref c) (s, v) = Inr (s', v')"
      "arrays v' a = Some (ObjectArray (xa[0 := Ref ?n]))"
      "arrays v' b = Some (ObjectArray (xb[0 := Ref (?n + 1)]))"
      "arrays v' c = Some (ObjectArray (xc[0 := Ref (?n + 2)]))"
      "arrays v' ?n = Some (ObjectArray (map thread infos))"
      "arrays v' (?n + 1) = Some (IntArray (map (\<lambda>i. cv (state i)) infos))"
      "arrays v' (?n + 2) = Some (ObjectArray (map (\<lambda>k. Ref (?n + 3 + k)) [0..<length infos]))"
      "\<forall>k<length infos. arrays v' (?n + 3 + k) = Some (LongArray (frame_ids (infos ! k)))"
    by blast
  from snapshot_read [OF r(2) a(2) r(3) b(2) r(4) c(2) r(5,6,7,8)] r(1)
  show ?thesis unfolding h by blast
qed

text \<open>
  The theorem at the sample runtime with its two threads, and three holders of one
  element each.
\<close>

theorem snapshot_aligned_witness:
  "holders_ok vm_holders (Ref 0) (Ref 1) (Ref 2)
   \<and> GetAllStackTraces jv_sample MAX_FRAMES =
       (JVMTI_ERROR_NONE,
        [\<lparr>thread = Ref 1, state = 5, frame_buffer = sample_stack\<rparr>,
         \<lparr>thread = Ref 2, state = 1025, frame_buffer = [frame_at 3]\<rparr>])
   \<and> Deallocate jv_sample = JVMTI_ERROR_NONE
   \<and> (\<exists>s' v'. getAllStackTraces jv_sample env_sample status_sample (Ref 0) (Ref 1) (Ref 2)
                   (initial_statics, vm_holders) = Inr (s', v')
          \<and> snapshot_lengths v' (Ref 0) (Ref 1) (Ref 2) = Some (2, 2, 2)
          \<and> snapshot_entry v' (Ref 0) (Ref 1) (Ref 2) 0 = Some (Ref 1, 5, [1, 2, 3])
          \<and> snapshot_entry v' (Ref 0) (Ref 1) (Ref 2) 1 = Some (Ref 2, 3, [3]))"
proof -
  let ?infos = "[\<lparr>thread = Ref 1, state = 5, frame_buffer = sample_stack\<rparr>,
                 \<lparr>thread = Ref 2, state = 1025, frame_buffer = [frame_at 3]\<rparr>]"
  from snapshot_aligned [OF sample_holders sample_snapshot sample_deallocate,
      of env_sample status_sample initial_statics]
  obtain s' v' where
    r: "getAllStackTraces jv_sample env_sample status_sample (Ref 0) (Ref 1) (Ref 2)
          (initial_statics, vm_holders) = Inr (s', v')"
      "snapshot_lengths v' (Ref 0) (Ref 1) (Ref 2) = Some (length ?infos, length ?infos, length ?infos)"
      "\<forall>i<length ?infos. snapshot_entry v' (Ref 0) (Ref 1) (Ref 2) i
          = Some (thread (?infos ! i), status_sample (state (?infos ! i)), frame_ids (?infos ! i))"
    by blast
  have e0: "snapshot_entry v' (Ref 0) (Ref 1) (Ref 2) 0 = Some (Ref 1, 5, [1, 2, 3])"
    using r(3) [rule_format, of 0]
    by (simp add: status_sample_def frame_ids_def sample_stack_def frame_at_def
        convert_jmethodID_to_jlong_def)
  have e1: "snapshot_entry v' (Ref 0) (Ref 1) (Ref 2) 1 = Some (Ref 2, 3, [3])"
    using r(3) [rule_format, of 1]
    by (simp add: status_sample_def frame_ids_def frame_at_def convert_jmethodID_to_jlong_def)
  have l: "snapshot_lengths v' (Ref 0) (Ref 1) (Ref 2) = Some (2, 2, 2)"
    using r(2) by simp
  from sample_holders sample_snapshot sample_deallocate r(1) l e0 e1 show ?thesis by blast
qed

section \<open>The release of the snapshot\<close>

text \<open>
  Claim C9. In every execution that captures a snapshot and returns, the journal of the
  call consists of array writes followed by one \<open>Deallocate\<close>: the release happens
  once, and no array is written after it. With proper holders, the three result arrays
  of the final virtual machine, which are the arrays at the moment of the release, hold
  every entry of the snapshot.
\<close>

theorem snapshot_released_once:
  assumes "getAllStackTraces jv env cv threads states frames (s, v) = Inr (s', v')"
    and "fst (GetAllStackTraces jv MAX_FRAMES) = JVMTI_ERROR_NONE"
  shows "(\<exists>ws. journal v' = journal v @ ws @ [Deallocated] \<and> Deallocated \<notin> set ws)
         \<and> (holders_ok v threads states frames \<longrightarrow>
              snapshot_lengths v' threads states frames
                = Some (length (snd (GetAllStackTraces jv MAX_FRAMES)),
                        length (snd (GetAllStackTraces jv MAX_FRAMES)),
                        length (snd (GetAllStackTraces jv MAX_FRAMES)))
              \<and> (\<forall>i<length (snd (GetAllStackTraces jv MAX_FRAMES)).
                    snapshot_entry v' threads states frames i
                      = Some (thread (snd (GetAllStackTraces jv MAX_FRAMES) ! i),
                              cv (state (snd (GetAllStackTraces jv MAX_FRAMES) ! i)),
                              frame_ids (snd (GetAllStackTraces jv MAX_FRAMES) ! i))))"
proof (intro conjI impI)
  show "\<exists>ws. journal v' = journal v @ ws @ [Deallocated] \<and> Deallocated \<notin> set ws"
    using assms by (rule all_stack_traces_journal)
next
  assume ok: "holders_ok v threads states frames"
  obtain infos where g: "GetAllStackTraces jv MAX_FRAMES = (JVMTI_ERROR_NONE, infos)"
    using assms(2) by (cases "GetAllStackTraces jv MAX_FRAMES") simp
  have d: "Deallocate jv = JVMTI_ERROR_NONE"
  proof (rule ccontr)
    assume "Deallocate jv \<noteq> JVMTI_ERROR_NONE"
    with assms(1) g show False
      by (auto simp: getAllStackTraces_def Let_def split_beta bind_fault_def split: sum.splits)
  qed
  from holders_okD [OF ok] obtain a b c xa xb xc where
    h: "threads = Ref a" "states = Ref b" "frames = Ref c"
    and a: "arrays v a = Some (ObjectArray xa)" "xa \<noteq> []" "a < next_ref v"
    and b: "arrays v b = Some (ObjectArray xb)" "xb \<noteq> []" "b < next_ref v"
    and c: "arrays v c = Some (ObjectArray xc)" "xc \<noteq> []" "c < next_ref v"
    and ne: "a \<noteq> b" "a \<noteq> c" "b \<noteq> c"
    by blast
  let ?n = "next_ref v"
  from all_stack_traces_result [OF g d a b c ne, of env cv s] assms(1) h have
    r: "arrays v' a = Some (ObjectArray (xa[0 := Ref ?n]))"
      "arrays v' b = Some (ObjectArray (xb[0 := Ref (?n + 1)]))"
      "arrays v' c = Some (ObjectArray (xc[0 := Ref (?n + 2)]))"
      "arrays v' ?n = Some (ObjectArray (map thread infos))"
      "arrays v' (?n + 1) = Some (IntArray (map (\<lambda>i. cv (state i)) infos))"
      "arrays v' (?n + 2) = Some (ObjectArray (map (\<lambda>k. Ref (?n + 3 + k)) [0..<length infos]))"
      "\<forall>k<length infos. arrays v' (?n + 3 + k) = Some (LongArray (frame_ids (infos ! k)))"
    by auto
  from snapshot_read [OF r(1) a(2) r(2) b(2) r(3) c(2) r(4,5,6,7)] h
  have "snapshot_lengths v' threads states frames = Some (length infos, length infos, length infos)
      \<and> (\<forall>i<length infos. snapshot_entry v' threads states frames i
            = Some (thread (infos ! i), cv (state (infos ! i)), frame_ids (infos ! i)))"
    by simp
  then show "snapshot_lengths v' threads states frames
                = Some (length (snd (GetAllStackTraces jv MAX_FRAMES)),
                        length (snd (GetAllStackTraces jv MAX_FRAMES)),
                        length (snd (GetAllStackTraces jv MAX_FRAMES)))"
    and "\<forall>i<length (snd (GetAllStackTraces jv MAX_FRAMES)).
                    snapshot_entry v' threads states frames i
                      = Some (thread (snd (GetAllStackTraces jv MAX_FRAMES) ! i),
                              cv (state (snd (GetAllStackTraces jv MAX_FRAMES) ! i)),
                              frame_ids (snd (GetAllStackTraces jv MAX_FRAMES) ! i))"
    using g by simp_all
qed

text \<open>The theorem at the run of the sample runtime with its two threads.\<close>

theorem snapshot_released_once_witness:
  "fst (GetAllStackTraces jv_sample MAX_FRAMES) = JVMTI_ERROR_NONE
   \<and> (\<exists>s' v' ws. getAllStackTraces jv_sample env_sample status_sample (Ref 0) (Ref 1) (Ref 2)
                      (initial_statics, vm_holders) = Inr (s', v')
          \<and> journal v' = journal vm_holders @ ws @ [Deallocated]
          \<and> Deallocated \<notin> set ws
          \<and> snapshot_lengths v' (Ref 0) (Ref 1) (Ref 2) = Some (2, 2, 2))"
proof -
  have h: "fst (GetAllStackTraces jv_sample MAX_FRAMES) = JVMTI_ERROR_NONE"
    by (simp add: sample_snapshot)
  from sample_run obtain s' v' where
    r: "getAllStackTraces jv_sample env_sample status_sample (Ref 0) (Ref 1) (Ref 2)
          (initial_statics, vm_holders) = Inr (s', v')"
    by blast
  from snapshot_released_once [OF r h] sample_holders obtain ws where
    "journal v' = journal vm_holders @ ws @ [Deallocated]" "Deallocated \<notin> set ws"
    "snapshot_lengths v' (Ref 0) (Ref 1) (Ref 2) = Some (2, 2, 2)"
    by (auto simp: sample_snapshot)
  with r h show ?thesis by blast
qed

end
